theory Spec2Isabelle
  imports Main "HOL-Library.Sublist"
begin

section \<open>Python values and the operations the module applies to them\<close>

text \<open>
  The module \<^verbatim>\<open>libcloud/common/openstack.py\<close> works on what \<^verbatim>\<open>json.loads\<close>
  returns and on dictionaries it builds itself. Both are dynamically typed, so they are
  modelled by one datatype of Python values. A dictionary is an association list in
  insertion order. JSON numbers with a fraction (Python floats) are not represented.
\<close>

datatype pyval =
    PNone
  | PBool bool
  | PInt int
  | PStr string
  | PList "pyval list"
  | PDict "(pyval \<times> pyval) list"

text \<open>Every \<^verbatim>\<open>raise\<close> of the module and every built-in exception its operations can raise.\<close>

datatype error =
    LibcloudError string
  | InvalidCredsError
  | MalformedResponseError string
  | KeyError
  | TypeError
  | AttributeError
  | IndexError
  | UnboundLocalError
  | NotImplementedError

definition and_then :: "error + 'a \<Rightarrow> ('a \<Rightarrow> error + 'b) \<Rightarrow> error + 'b" where
  "and_then m f = (case m of Inl e \<Rightarrow> Inl e | Inr x \<Rightarrow> f x)"

text \<open>A \<^verbatim>\<open>for\<close> loop whose body may raise: the first exception ends the loop.\<close>

fun for_each :: "('a \<Rightarrow> 's \<Rightarrow> error + 's) \<Rightarrow> 'a list \<Rightarrow> 's \<Rightarrow> error + 's" where
  "for_each body [] s = Inr s"
| "for_each body (x # xs) s =
     (case body x s of Inl e \<Rightarrow> Inl e | Inr s' \<Rightarrow> for_each body xs s')"

text \<open>Python's \<^verbatim>\<open>==\<close>: \<^verbatim>\<open>True == 1\<close> and \<^verbatim>\<open>False == 0\<close>, lists compare
  elementwise, dictionaries as sets of items.\<close>

fun py_eq :: "pyval \<Rightarrow> pyval \<Rightarrow> bool" where
  "py_eq PNone PNone = True"
| "py_eq (PBool a) (PBool b) = (a = b)"
| "py_eq (PBool a) (PInt i) = (i = (if a then 1 else 0))"
| "py_eq (PInt i) (PBool a) = (i = (if a then 1 else 0))"
| "py_eq (PInt i) (PInt j) = (i = j)"
| "py_eq (PStr s) (PStr t) = (s = t)"
| "py_eq (PList xs) (PList ys) = list_all2 py_eq xs ys"
| "py_eq (PDict d) (PDict e) =
     (length d = length e \<and>
      list_all (\<lambda>(k, v). list_ex (\<lambda>(k', v'). py_eq k k' \<and> py_eq v v') e) d)"
| "py_eq _ _ = False"

text \<open>Lists and dictionaries are unhashable: using one as a dictionary key raises
  \<^verbatim>\<open>TypeError\<close>.\<close>

fun hashable :: "pyval \<Rightarrow> bool" where
  "hashable (PList _) = False"
| "hashable (PDict _) = False"
| "hashable _ = True"

fun truthy :: "pyval \<Rightarrow> bool" where
  "truthy PNone = False"
| "truthy (PBool b) = b"
| "truthy (PInt i) = (i \<noteq> 0)"
| "truthy (PStr s) = (s \<noteq> [])"
| "truthy (PList xs) = (xs \<noteq> [])"
| "truthy (PDict d) = (d \<noteq> [])"

fun dict_lookup :: "(pyval \<times> 'v) list \<Rightarrow> pyval \<Rightarrow> 'v option" where
  "dict_lookup [] k = None"
| "dict_lookup ((k', v) # d) k = (if py_eq k' k then Some v else dict_lookup d k)"

text \<open>Assignment to a key keeps the position (and the stored key) of an existing entry and
  appends a new one.\<close>

fun dict_update :: "(pyval \<times> 'v) list \<Rightarrow> pyval \<Rightarrow> 'v \<Rightarrow> (pyval \<times> 'v) list" where
  "dict_update [] k v = [(k, v)]"
| "dict_update ((k', v') # d) k v =
     (if py_eq k' k then (k', v) # d else (k', v') # dict_update d k v)"

text \<open>Sequence indexing: negative indices count from the end, booleans are integers.\<close>

fun int_index :: "pyval \<Rightarrow> int option" where
  "int_index (PInt i) = Some i"
| "int_index (PBool b) = Some (if b then 1 else 0)"
| "int_index _ = None"

definition seq_position :: "'a list \<Rightarrow> int \<Rightarrow> nat option" where
  "seq_position xs i =
     (let n = int (length xs); j = (if i < 0 then i + n else i)
      in if 0 \<le> j \<and> j < n then Some (nat j) else None)"

text \<open>\<^verbatim>\<open>obj[k]\<close>\<close>

fun py_getitem :: "pyval \<Rightarrow> pyval \<Rightarrow> error + pyval" where
  "py_getitem (PDict d) k =
     (if hashable k
      then (case dict_lookup d k of None \<Rightarrow> Inl KeyError | Some v \<Rightarrow> Inr v)
      else Inl TypeError)"
| "py_getitem (PList xs) k =
     (case int_index k of
        None \<Rightarrow> Inl TypeError
      | Some i \<Rightarrow> (case seq_position xs i of
                    None \<Rightarrow> Inl IndexError
                  | Some j \<Rightarrow> Inr (xs ! j)))"
| "py_getitem (PStr s) k =
     (case int_index k of
        None \<Rightarrow> Inl TypeError
      | Some i \<Rightarrow> (case seq_position s i of
                    None \<Rightarrow> Inl IndexError
                  | Some j \<Rightarrow> Inr (PStr [s ! j])))"
| "py_getitem _ k = Inl TypeError"

text \<open>\<^verbatim>\<open>obj[k] = v\<close>, returning the updated object.\<close>

fun py_setitem :: "pyval \<Rightarrow> pyval \<Rightarrow> pyval \<Rightarrow> error + pyval" where
  "py_setitem (PDict d) k v =
     (if hashable k then Inr (PDict (dict_update d k v)) else Inl TypeError)"
| "py_setitem (PList xs) k v =
     (case int_index k of
        None \<Rightarrow> Inl TypeError
      | Some i \<Rightarrow> (case seq_position xs i of
                    None \<Rightarrow> Inl IndexError
                  | Some j \<Rightarrow> Inr (PList (xs[j := v]))))"
| "py_setitem _ k v = Inl TypeError"

text \<open>\<^verbatim>\<open>obj.get(k, default)\<close>: only dictionaries have the method.\<close>

fun py_get :: "pyval \<Rightarrow> pyval \<Rightarrow> pyval \<Rightarrow> error + pyval" where
  "py_get (PDict d) k dflt =
     (if hashable k
      then Inr (case dict_lookup d k of None \<Rightarrow> dflt | Some v \<Rightarrow> v)
      else Inl TypeError)"
| "py_get _ k dflt = Inl AttributeError"

text \<open>\<^verbatim>\<open>'2.0' in version\<close> on strings: substring search.\<close>

fun str_in :: "string \<Rightarrow> string \<Rightarrow> bool" where
  "str_in sub [] = (sub = [])"
| "str_in sub (c # cs) = (prefix sub (c # cs) \<or> str_in sub cs)"

text \<open>\<^verbatim>\<open>k in obj\<close>\<close>

fun py_contains :: "pyval \<Rightarrow> pyval \<Rightarrow> error + bool" where
  "py_contains k (PDict d) =
     (if hashable k then Inr (dict_lookup d k \<noteq> None) else Inl TypeError)"
| "py_contains k (PList xs) = Inr (list_ex (\<lambda>x. py_eq x k) xs)"
| "py_contains (PStr sub) (PStr s) = Inr (str_in sub s)"
| "py_contains k _ = Inl TypeError"

text \<open>\<^verbatim>\<open>obj.append(x)\<close>: only lists have the method.\<close>

fun py_append :: "pyval \<Rightarrow> pyval \<Rightarrow> error + pyval" where
  "py_append (PList xs) x = Inr (PList (xs @ [x]))"
| "py_append _ x = Inl AttributeError"

fun py_len :: "pyval \<Rightarrow> error + nat" where
  "py_len (PList xs) = Inr (length xs)"
| "py_len (PDict d) = Inr (length d)"
| "py_len (PStr s) = Inr (length s)"
| "py_len _ = Inl TypeError"

text \<open>\<^verbatim>\<open>for x in obj\<close>: a list yields its elements, a dictionary its keys, a
  string its characters; nothing else met here is iterable.\<close>

fun py_iter :: "pyval \<Rightarrow> error + pyval list" where
  "py_iter (PList xs) = Inr xs"
| "py_iter (PDict d) = Inr (map fst d)"
| "py_iter (PStr s) = Inr (map (\<lambda>c. PStr [c]) s)"
| "py_iter _ = Inl TypeError"

text \<open>\<^verbatim>\<open>obj.items()\<close>\<close>

fun py_items :: "pyval \<Rightarrow> error + (pyval \<times> pyval) list" where
  "py_items (PDict d) = Inr d"
| "py_items _ = Inl AttributeError"

text \<open>
  The index is a dictionary of dictionaries that the module updates through chains of
  subscripts, \<^verbatim>\<open>d[a][b][c] = v\<close> and \<^verbatim>\<open>d[a][b][c].append(x)\<close>. The inner
  objects are reached by reference, so the update is written back along the path.
\<close>

fun py_getpath :: "pyval \<Rightarrow> pyval list \<Rightarrow> error + pyval" where
  "py_getpath obj [] = Inr obj"
| "py_getpath obj (k # ks) = and_then (py_getitem obj k) (\<lambda>inner. py_getpath inner ks)"

fun py_setpath :: "pyval \<Rightarrow> pyval list \<Rightarrow> pyval \<Rightarrow> error + pyval" where
  "py_setpath obj [] v = Inr v"
| "py_setpath obj [k] v = py_setitem obj k v"
| "py_setpath obj (k # ks) v =
     and_then (py_getitem obj k) (\<lambda>inner.
     and_then (py_setpath inner ks v) (\<lambda>inner'.
       py_setitem obj k inner'))"

definition py_append_at :: "pyval \<Rightarrow> pyval list \<Rightarrow> pyval \<Rightarrow> error + pyval" where
  "py_append_at obj path x =
     and_then (py_getpath obj path) (\<lambda>target.
     and_then (py_append target x) (\<lambda>target'.
       py_setpath obj path target'))"

text \<open>\<^verbatim>\<open>if k not in obj[path]: obj[path][k] = fresh\<close>\<close>

definition py_ensure_at :: "pyval \<Rightarrow> pyval list \<Rightarrow> pyval \<Rightarrow> pyval \<Rightarrow> error + pyval" where
  "py_ensure_at obj path k fresh =
     and_then (py_getpath obj path) (\<lambda>holder.
     and_then (py_contains k holder) (\<lambda>present.
       if present then Inr obj else py_setpath obj (path @ [k]) fresh))"

section \<open>OpenStackServiceCatalog\<close>

definition AUTH_API_VERSION :: string where
  "AUTH_API_VERSION = ''1.1''"

record catalog =
  cat_auth_version :: string
  cat_service_catalog :: pyval

text \<open>\<^verbatim>\<open>_parse_auth_v1\<close>: the body of the inner loop, of the outer loop, and the method.\<close>

definition parse_auth_v1_endpoint :: "pyval \<Rightarrow> pyval \<Rightarrow> pyval \<Rightarrow> error + pyval" where
  "parse_auth_v1_endpoint service endpoint idx =
     and_then (py_get endpoint (PStr ''region'') PNone) (\<lambda>region.
     and_then (py_ensure_at idx [service] region (PList [])) (\<lambda>idx1.
       py_append_at idx1 [service, region] endpoint))"

definition parse_auth_v1_service :: "pyval \<times> pyval \<Rightarrow> pyval \<Rightarrow> error + pyval" where
  "parse_auth_v1_service item idx =
     (case item of (service, endpoints) \<Rightarrow>
        and_then (py_setitem idx service (PDict [])) (\<lambda>idx1.
        and_then (py_iter endpoints) (\<lambda>eps.
          for_each (parse_auth_v1_endpoint service) eps idx1)))"

definition parse_auth_v1 :: "pyval \<Rightarrow> pyval \<Rightarrow> error + pyval" where
  "parse_auth_v1 service_catalog idx =
     and_then (py_items service_catalog) (\<lambda>items.
       for_each parse_auth_v1_service items idx)"

text \<open>\<^verbatim>\<open>_parse_auth_v2\<close>, in the same three parts.\<close>

definition parse_auth_v2_endpoint ::
  "pyval \<Rightarrow> pyval \<Rightarrow> pyval \<Rightarrow> pyval \<Rightarrow> error + pyval" where
  "parse_auth_v2_endpoint service_type service_name endpoint idx =
     and_then (py_get endpoint (PStr ''region'') PNone) (\<lambda>region.
     and_then (py_ensure_at idx [service_type, service_name] region (PList [])) (\<lambda>idx1.
       py_append_at idx1 [service_type, service_name, region] endpoint))"

definition parse_auth_v2_service :: "pyval \<Rightarrow> pyval \<Rightarrow> error + pyval" where
  "parse_auth_v2_service service idx =
     and_then (py_getitem service (PStr ''type'')) (\<lambda>service_type.
     and_then (py_get service (PStr ''name'') PNone) (\<lambda>service_name.
     and_then (py_ensure_at idx [] service_type (PDict [])) (\<lambda>idx1.
     and_then (py_ensure_at idx1 [service_type] service_name (PDict [])) (\<lambda>idx2.
     and_then (py_get service (PStr ''endpoints'') (PList [])) (\<lambda>endpoints.
     and_then (py_iter endpoints) (\<lambda>eps.
       for_each (parse_auth_v2_endpoint service_type service_name) eps idx2))))))"

definition parse_auth_v2 :: "pyval \<Rightarrow> pyval \<Rightarrow> error + pyval" where
  "parse_auth_v2 service_catalog idx =
     and_then (py_iter service_catalog) (\<lambda>services.
       for_each parse_auth_v2_service services idx)"

text \<open>\<^verbatim>\<open>OpenStackServiceCatalog.__init__\<close>. The version argument is a string or
  \<^verbatim>\<open>None\<close>; \<^verbatim>\<open>ex_force_auth_version or AUTH_API_VERSION\<close> replaces
  \<^verbatim>\<open>None\<close> and the empty string by the default.\<close>

definition OpenStackServiceCatalog_init :: "pyval \<Rightarrow> string option \<Rightarrow> error + catalog" where
  "OpenStackServiceCatalog_init service_catalog ex_force_auth_version =
     (let version = (case ex_force_auth_version of
                       None \<Rightarrow> AUTH_API_VERSION
                     | Some v \<Rightarrow> if v \<noteq> [] then v else AUTH_API_VERSION);
          self = \<lparr>cat_auth_version = version, cat_service_catalog = PDict []\<rparr>
      in if str_in ''2.0'' version then
           and_then (parse_auth_v2 service_catalog (cat_service_catalog self)) (\<lambda>idx.
             Inr (self\<lparr>cat_service_catalog := idx\<rparr>))
         else if str_in ''1.1'' version \<or> str_in ''1.0'' version then
           and_then (parse_auth_v1 service_catalog (cat_service_catalog self)) (\<lambda>idx.
             Inr (self\<lparr>cat_service_catalog := idx\<rparr>))
         else Inl (LibcloudError (''auth version \"'' @ version @ ''\" not supported'')))"

text \<open>\<^verbatim>\<open>get_endpoint\<close>: first the chain of \<^verbatim>\<open>.get\<close> calls that resolves the list
  of endpoint records, then the test on its length. With a version of neither family the
  variable \<^verbatim>\<open>endpoint\<close> is never bound.\<close>

definition resolve_endpoints :: "catalog \<Rightarrow> pyval \<Rightarrow> pyval \<Rightarrow> pyval \<Rightarrow> error + pyval" where
  "resolve_endpoints self service_type name region =
     (if str_in ''2.0'' (cat_auth_version self) then
        and_then (py_get (cat_service_catalog self) service_type (PDict [])) (\<lambda>by_name.
        and_then (py_get by_name name (PDict [])) (\<lambda>by_region.
          py_get by_region region (PList [])))
      else if str_in ''1.1'' (cat_auth_version self) \<or> str_in ''1.0'' (cat_auth_version self) then
        and_then (py_get (cat_service_catalog self) name (PDict [])) (\<lambda>by_region.
          py_get by_region region (PList []))
      else Inl UnboundLocalError)"

definition get_endpoint :: "catalog \<Rightarrow> pyval \<Rightarrow> pyval \<Rightarrow> pyval \<Rightarrow> error + pyval" where
  "get_endpoint self service_type name region =
     and_then (resolve_endpoints self service_type name region) (\<lambda>endpoint.
     and_then (py_len endpoint) (\<lambda>n.
       if n = 1 then py_getitem endpoint (PInt 0) else Inr (PDict [])))"

section \<open>The collaborators\<close>

text \<open>
  The HTTP machinery (\<^verbatim>\<open>libcloud.common.base\<close>) and the JSON library are not part of
  this module. A request sent by the auth connection and the response it receives are
  records; status codes are those of \<^verbatim>\<open>httplib\<close>.
\<close>

record auth_request =
  req_method :: string
  req_path :: string
  req_headers :: "(string \<times> string) list"
  req_data :: "string option"

record auth_response =
  resp_status :: nat
  resp_headers :: "(string \<times> string) list"
  resp_body :: string

definition OK :: nat where "OK = 200"
definition NON_AUTHORITATIVE_INFORMATION :: nat where "NON_AUTHORITATIVE_INFORMATION = 203"
definition NO_CONTENT :: nat where "NO_CONTENT = 204"
definition UNAUTHORIZED :: nat where "UNAUTHORIZED = 401"

text \<open>\<^verbatim>\<open>headers.get(name, None)\<close> on the response's header dictionary.\<close>

definition headers_get :: "(string \<times> string) list \<Rightarrow> string \<Rightarrow> pyval" where
  "headers_get hs name = (case map_of hs name of None \<Rightarrow> PNone | Some v \<Rightarrow> PStr v)"

section \<open>OpenStackAuthResponse\<close>

text \<open>\<^verbatim>\<open>success\<close>: every status counts as a success, so that the \<^verbatim>\<open>authenticate\<close>
  methods get to see the response.\<close>

definition success :: "auth_response \<Rightarrow> bool" where
  "success self = True"

text \<open>\<^verbatim>\<open>parse_body\<close>. Its argument \<open>loads\<close> is \<^verbatim>\<open>json.loads\<close>, with \<open>None\<close>
  for any exception it raises.\<close>

definition parse_body :: "(string \<Rightarrow> pyval option) \<Rightarrow> auth_response \<Rightarrow> error + pyval" where
  "parse_body loads self =
     (if resp_body self = [] then Inr PNone
      else
        (case (if map_of (resp_headers self) ''content-type'' \<noteq> None then Some ''content-type''
               else if map_of (resp_headers self) ''Content-Type'' \<noteq> None then Some ''Content-Type''
               else None) of
           None \<Rightarrow> Inl (LibcloudError ''Missing content-type header'')
         | Some key \<Rightarrow>
             (let content_type = the (map_of (resp_headers self) key);
                  content_type = (if CHR '';'' \<in> set content_type
                                  then takeWhile (\<lambda>c. c \<noteq> CHR '';'') content_type
                                  else content_type)
              in if content_type = ''application/json'' then
                   (case loads (resp_body self) of
                      None \<Rightarrow> Inl (MalformedResponseError ''Failed to parse JSON'')
                    | Some data \<Rightarrow> Inr data)
                 else Inr (PStr (resp_body self)))))"

section \<open>OpenStackAuthConnection\<close>

text \<open>The attributes the methods read and write. \<^verbatim>\<open>auth_token\<close> has no value until
  an \<^verbatim>\<open>authenticate\<close> method assigns one.\<close>

record auth_conn =
  osa_auth_url :: string
  osa_auth_version :: string
  osa_user_id :: string
  osa_key :: string
  osa_urls :: pyval
  osa_auth_token :: "pyval option"

text \<open>What the auth connection is given: \<^verbatim>\<open>json.loads\<close>, \<^verbatim>\<open>json.dumps\<close>, and
  the auth endpoint behind \<^verbatim>\<open>self.request\<close>, which answers a request (or raises) and
  may depend on the requests it got before.\<close>

record auth_env =
  json_loads :: "string \<Rightarrow> pyval option"
  json_dumps :: "pyval \<Rightarrow> string"
  auth_endpoint :: "auth_request list \<Rightarrow> auth_request \<Rightarrow> error + auth_response"

definition OpenStackAuthConnection_init ::
  "string \<Rightarrow> string \<Rightarrow> string \<Rightarrow> string \<Rightarrow> auth_conn" where
  "OpenStackAuthConnection_init auth_url auth_version user_id key =
     \<lparr>osa_auth_url = auth_url, osa_auth_version = auth_version, osa_user_id = user_id,
      osa_key = key, osa_urls = PDict [], osa_auth_token = None\<rparr>"

text \<open>
  Modelled from the spec: \<^verbatim>\<open>Connection.request\<close> and the constructor of
  \<^verbatim>\<open>Response\<close> belong to \<^verbatim>\<open>libcloud.common.base\<close>, which is outside this module.
  The answer of the auth endpoint is wrapped in the connection's \<^verbatim>\<open>responseCls\<close>,
  \<^verbatim>\<open>OpenStackAuthResponse\<close>. Constructing it tests \<^verbatim>\<open>success()\<close> and parses the
  body with \<^verbatim>\<open>parse_body\<close>; a failure bubbles to the caller of
  \<^verbatim>\<open>authenticate\<close>, as every failure does. Since \<^verbatim>\<open>success()\<close> is always true
  here, its test cannot fail and only \<^verbatim>\<open>parse_body\<close> can raise.
\<close>

definition OpenStackAuthResponse_init ::
  "(string \<Rightarrow> pyval option) \<Rightarrow> auth_response \<Rightarrow> error + auth_response" where
  "OpenStackAuthResponse_init loads raw =
     and_then (parse_body loads raw) (\<lambda>parsed. Inr raw)"

text \<open>\<^verbatim>\<open>self.request(...)\<close> of the auth connection: one exchange with the auth
  endpoint, recorded on the wire, and the construction of the response object.\<close>

definition osa_request ::
  "auth_env \<Rightarrow> auth_request list \<Rightarrow> auth_request \<Rightarrow> (error + auth_response) \<times> auth_request list" where
  "osa_request env wire rq =
     (and_then (auth_endpoint env wire rq) (OpenStackAuthResponse_init (json_loads env)),
      wire @ [rq])"

text \<open>An \<^verbatim>\<open>except KeyError\<close> clause turns that exception into a malformed-response
  error and lets every other one through.\<close>

definition except_KeyError :: "error \<Rightarrow> error" where
  "except_KeyError e =
     (if e = KeyError
      then MalformedResponseError ''Auth JSON response is missing required elements''
      else e)"

text \<open>Each method returns its outcome, the connection as the method left it (also when
  it raised) and the wire.\<close>

definition authenticate_1_0 ::
  "auth_env \<Rightarrow> auth_conn \<Rightarrow> auth_request list \<Rightarrow> (error + unit) \<times> auth_conn \<times> auth_request list" where
  "authenticate_1_0 env self wire =
     (case osa_request env wire
             \<lparr>req_method = ''GET'', req_path = ''/v1.0'',
              req_headers = [(''X-Auth-User'', osa_user_id self), (''X-Auth-Key'', osa_key self)],
              req_data = None\<rparr> of
        (Inl e, wire') \<Rightarrow> (Inl e, self, wire')
      | (Inr resp, wire') \<Rightarrow>
          if resp_status resp = UNAUTHORIZED then (Inl InvalidCredsError, self, wire')
          else if resp_status resp \<noteq> NO_CONTENT then
            (Inl (MalformedResponseError ''Malformed response''), self, wire')
          else
            (let headers = resp_headers resp;
                 urls = dict_update [] (PStr ''cloudServers'')
                          (PList [PDict [(PStr ''publicURL'', headers_get headers ''x-server-management-url'')]]);
                 urls = dict_update urls (PStr ''cloudFilesCDN'')
                          (PList [PDict [(PStr ''publicURL'', headers_get headers ''x-cdn-management-url'')]]);
                 urls = dict_update urls (PStr ''cloudFiles'')
                          (PList [PDict [(PStr ''publicURL'', headers_get headers ''x-storage-url'')]]);
                 auth_token = headers_get headers ''x-auth-token'';
                 self = self\<lparr>osa_urls := PDict urls, osa_auth_token := Some auth_token\<rparr>
             in if \<not> truthy auth_token then
                  (Inl (MalformedResponseError ''Missing X-Auth-Token in response headers''), self, wire')
                else (Inr (), self, wire')))"

definition authenticate_1_1 ::
  "auth_env \<Rightarrow> auth_conn \<Rightarrow> auth_request list \<Rightarrow> (error + unit) \<times> auth_conn \<times> auth_request list" where
  "authenticate_1_1 env self wire =
     (let reqbody = json_dumps env
            (PDict [(PStr ''credentials'',
               PDict [(PStr ''username'', PStr (osa_user_id self)), (PStr ''key'', PStr (osa_key self))])])
      in case osa_request env wire
             \<lparr>req_method = ''POST'', req_path = ''/v1.1/auth'', req_headers = [],
              req_data = Some reqbody\<rparr> of
        (Inl e, wire') \<Rightarrow> (Inl e, self, wire')
      | (Inr resp, wire') \<Rightarrow>
          if resp_status resp = UNAUTHORIZED then (Inl InvalidCredsError, self, wire')
          else if resp_status resp \<noteq> OK then
            (Inl (MalformedResponseError ''Malformed response''), self, wire')
          else
            (case json_loads env (resp_body resp) of
               None \<Rightarrow> (Inl (MalformedResponseError ''Failed to parse JSON''), self, wire')
             | Some body \<Rightarrow>
                 (case py_getpath body [PStr ''auth'', PStr ''token'', PStr ''id''] of
                    Inl e \<Rightarrow> (Inl (except_KeyError e), self, wire')
                  | Inr token \<Rightarrow>
                      (let self = self\<lparr>osa_auth_token := Some token\<rparr>
                       in case py_getpath body [PStr ''auth'', PStr ''serviceCatalog''] of
                            Inl e \<Rightarrow> (Inl (except_KeyError e), self, wire')
                          | Inr urls \<Rightarrow> (Inr (), self\<lparr>osa_urls := urls\<rparr>, wire')))))"

definition authenticate_2_0_with_body ::
  "auth_env \<Rightarrow> auth_conn \<Rightarrow> auth_request list \<Rightarrow> string \<Rightarrow>
   (error + unit) \<times> auth_conn \<times> auth_request list" where
  "authenticate_2_0_with_body env self wire reqbody =
     (case osa_request env wire
             \<lparr>req_method = ''POST'', req_path = ''/v2.0/tokens/'',
              req_headers = [(''Content-Type'', ''application/json'')],
              req_data = Some reqbody\<rparr> of
        (Inl e, wire') \<Rightarrow> (Inl e, self, wire')
      | (Inr resp, wire') \<Rightarrow>
          if resp_status resp = UNAUTHORIZED then (Inl InvalidCredsError, self, wire')
          else if resp_status resp \<notin> set [OK, NON_AUTHORITATIVE_INFORMATION] then
            (Inl (MalformedResponseError ''Malformed response''), self, wire')
          else
            (case json_loads env (resp_body resp) of
               None \<Rightarrow> (Inl (MalformedResponseError ''Failed to parse JSON''), self, wire')
             | Some body \<Rightarrow>
                 (case and_then (py_getitem body (PStr ''access'')) (\<lambda>access.
                       and_then (py_getitem access (PStr ''token'')) (\<lambda>token.
                       and_then (py_getitem token (PStr ''id'')) (\<lambda>token_id.
                         Inr (access, token_id)))) of
                    Inl e \<Rightarrow> (Inl (except_KeyError e), self, wire')
                  | Inr (access, token_id) \<Rightarrow>
                      (let self = self\<lparr>osa_auth_token := Some token_id\<rparr>
                       in case py_getitem access (PStr ''serviceCatalog'') of
                            Inl e \<Rightarrow> (Inl (except_KeyError e), self, wire')
                          | Inr urls \<Rightarrow> (Inr (), self\<lparr>osa_urls := urls\<rparr>, wire')))))"

definition authenticate_2_0_with_apikey ::
  "auth_env \<Rightarrow> auth_conn \<Rightarrow> auth_request list \<Rightarrow> (error + unit) \<times> auth_conn \<times> auth_request list" where
  "authenticate_2_0_with_apikey env self wire =
     authenticate_2_0_with_body env self wire
       (json_dumps env
          (PDict [(PStr ''auth'',
             PDict [(PStr ''RAX-KSKEY:apiKeyCredentials'',
               PDict [(PStr ''username'', PStr (osa_user_id self)),
                      (PStr ''apiKey'', PStr (osa_key self))])])]))"

definition authenticate_2_0_with_password ::
  "auth_env \<Rightarrow> auth_conn \<Rightarrow> auth_request list \<Rightarrow> (error + unit) \<times> auth_conn \<times> auth_request list" where
  "authenticate_2_0_with_password env self wire =
     authenticate_2_0_with_body env self wire
       (json_dumps env
          (PDict [(PStr ''auth'',
             PDict [(PStr ''passwordCredentials'',
               PDict [(PStr ''username'', PStr (osa_user_id self)),
                      (PStr ''password'', PStr (osa_key self))])])]))"

definition authenticate ::
  "auth_env \<Rightarrow> auth_conn \<Rightarrow> auth_request list \<Rightarrow> (error + unit) \<times> auth_conn \<times> auth_request list" where
  "authenticate env self wire =
     (if osa_auth_version self = ''1.0'' then authenticate_1_0 env self wire
      else if osa_auth_version self = ''1.1'' then authenticate_1_1 env self wire
      else if osa_auth_version self = ''2.0'' \<or> osa_auth_version self = ''2.0_apikey'' then
        authenticate_2_0_with_apikey env self wire
      else if osa_auth_version self = ''2.0_password'' then
        authenticate_2_0_with_password env self wire
      else (Inl (LibcloudError ''Unsupported Auth Version requested''), self, wire))"

section \<open>OpenStackBaseConnection\<close>

text \<open>The attributes \<^verbatim>\<open>_populate_hosts_and_request_paths\<close> reads and writes. The class
  gives \<^verbatim>\<open>auth_url\<close>, \<^verbatim>\<open>auth_token\<close> and \<^verbatim>\<open>service_catalog\<close> the value
  \<^verbatim>\<open>None\<close>.\<close>

record os_conn =
  conn_user_id :: string
  conn_key :: string
  conn_auth_url :: "string option"
  conn_ex_force_base_url :: "string option"
  conn_ex_force_auth_url :: "string option"
  conn_auth_version :: string
  conn_auth_token :: pyval
  conn_service_catalog :: "catalog option"
  conn_host :: pyval
  conn_port :: pyval
  conn_secure :: pyval
  conn_request_path :: pyval

text \<open>
  What a connection is given besides the auth collaborators: the concrete driver's
  \<^verbatim>\<open>get_endpoint\<close>, and \<^verbatim>\<open>_tuple_from_url\<close>, \<^verbatim>\<open>request\<close> and
  \<^verbatim>\<open>morph_action_hook\<close> of the base class in \<^verbatim>\<open>libcloud.common.base\<close>.
\<close>

record conn_env =
  auth_side :: auth_env
  driver_get_endpoint :: "os_conn \<Rightarrow> error + pyval"
  tuple_from_url :: "pyval \<Rightarrow> error + (pyval \<times> pyval \<times> pyval \<times> pyval)"
  base_request :: "os_conn \<Rightarrow> pyval \<Rightarrow> error + pyval"
  base_morph_action_hook :: "os_conn \<Rightarrow> string \<Rightarrow> error + string"

text \<open>\<^verbatim>\<open>OpenStackBaseConnection.get_endpoint\<close>, which every driver must override.\<close>

definition OpenStackBaseConnection_get_endpoint :: "os_conn \<Rightarrow> error + pyval" where
  "OpenStackBaseConnection_get_endpoint self = Inl NotImplementedError"

definition populate_hosts_and_request_paths ::
  "conn_env \<Rightarrow> os_conn \<Rightarrow> auth_request list \<Rightarrow> (error + unit) \<times> os_conn \<times> auth_request list" where
  "populate_hosts_and_request_paths env self wire =
     (if \<not> truthy (conn_auth_token self) then
        (let aurl = conn_auth_url self;
             aurl = (if conn_ex_force_auth_url self \<noteq> None then conn_ex_force_auth_url self else aurl)
         in case aurl of
              None \<Rightarrow> (Inl (LibcloudError ''OpenStack instance must have auth_url set''), self, wire)
            | Some url \<Rightarrow>
                (let osa = OpenStackAuthConnection_init url (conn_auth_version self)
                             (conn_user_id self) (conn_key self)
                 in case authenticate (auth_side env) osa wire of
                      (Inl e, osa, wire') \<Rightarrow> (Inl e, self, wire')
                    | (Inr u, osa, wire') \<Rightarrow>
                        (case osa_auth_token osa of
                           None \<Rightarrow> (Inl AttributeError, self, wire')
                         | Some token \<Rightarrow>
                             (let self = self\<lparr>conn_auth_token := token\<rparr>
                              in case OpenStackServiceCatalog_init (osa_urls osa)
                                        (Some (conn_auth_version self)) of
                                   Inl e \<Rightarrow> (Inl e, self, wire')
                                 | Inr sc \<Rightarrow>
                                     (let self = self\<lparr>conn_service_catalog := Some sc\<rparr>
                                      in case (case conn_ex_force_base_url self of
                                                 None \<Rightarrow> driver_get_endpoint env self
                                               | Some b \<Rightarrow> if b \<noteq> [] then Inr (PStr b)
                                                           else driver_get_endpoint env self) of
                                           Inl e \<Rightarrow> (Inl e, self, wire')
                                         | Inr target \<Rightarrow>
                                             (case tuple_from_url env target of
                                                Inl e \<Rightarrow> (Inl e, self, wire')
                                              | Inr (h, p, s, rp) \<Rightarrow>
                                                  (Inr (),
                                                   self\<lparr>conn_host := h, conn_port := p,
                                                        conn_secure := s, conn_request_path := rp\<rparr>,
                                                   wire')))))))
      else (Inr (), self, wire))"

text \<open>\<^verbatim>\<open>request\<close> and \<^verbatim>\<open>morph_action_hook\<close> run the step above and then the method
  of the base class.\<close>

definition request ::
  "conn_env \<Rightarrow> os_conn \<Rightarrow> auth_request list \<Rightarrow> pyval \<Rightarrow> (error + pyval) \<times> os_conn \<times> auth_request list" where
  "request env self wire kwargs =
     (case populate_hosts_and_request_paths env self wire of
        (Inl e, self, wire') \<Rightarrow> (Inl e, self, wire')
      | (Inr u, self, wire') \<Rightarrow> (base_request env self kwargs, self, wire'))"

definition morph_action_hook ::
  "conn_env \<Rightarrow> os_conn \<Rightarrow> auth_request list \<Rightarrow> string \<Rightarrow> (error + string) \<times> os_conn \<times> auth_request list" where
  "morph_action_hook env self wire action =
     (case populate_hosts_and_request_paths env self wire of
        (Inl e, self, wire') \<Rightarrow> (Inl e, self, wire')
      | (Inr u, self, wire') \<Rightarrow> (base_morph_action_hook env self action, self, wire'))"

section \<open>Notions used to state and prove the properties of the index\<close>

text \<open>
  The body of the inner loop of \<^verbatim>\<open>_parse_auth_v1\<close> and \<^verbatim>\<open>_parse_auth_v2\<close>, seen
  from the dictionary of regions it works on: read the endpoint's region, create the
  region's list if there is none, append the endpoint.
\<close>

definition region_step :: "pyval \<Rightarrow> pyval \<Rightarrow> error + pyval" where
  "region_step endpoint regions =
     and_then (py_get endpoint (PStr ''region'') PNone) (\<lambda>region.
     and_then (py_ensure_at regions [] region (PList [])) (\<lambda>regions1.
       py_append_at regions1 [region] endpoint))"

text \<open>The shape of the index, level by level: a dictionary from regions to non-empty
  lists, a dictionary from names to those, a dictionary from types to those.\<close>

definition hashable_keys :: "(pyval \<times> 'v) list \<Rightarrow> bool" where
  "hashable_keys d = list_all (\<lambda>(k, v). hashable k) d"

definition region_dict :: "(pyval \<times> pyval) list \<Rightarrow> bool" where
  "region_dict d =
     list_all (\<lambda>(k, v). hashable k \<and> (case v of PList es \<Rightarrow> es \<noteq> [] | _ \<Rightarrow> False)) d"

definition name_dict :: "(pyval \<times> pyval) list \<Rightarrow> bool" where
  "name_dict d =
     list_all (\<lambda>(k, v). hashable k \<and> (case v of PDict d2 \<Rightarrow> region_dict d2 | _ \<Rightarrow> False)) d"

definition type_dict :: "(pyval \<times> pyval) list \<Rightarrow> bool" where
  "type_dict d =
     list_all (\<lambda>(k, v). hashable k \<and> (case v of PDict d1 \<Rightarrow> name_dict d1 | _ \<Rightarrow> False)) d"

text \<open>The list stored for a region and the dictionary stored for a key, empty when the
  key is absent.\<close>

definition regs_at :: "(pyval \<times> pyval) list \<Rightarrow> pyval \<Rightarrow> pyval list" where
  "regs_at d r = (case dict_lookup d r of Some (PList es) \<Rightarrow> es | _ \<Rightarrow> [])"

definition sub_dict :: "(pyval \<times> pyval) list \<Rightarrow> pyval \<Rightarrow> (pyval \<times> pyval) list" where
  "sub_dict d k = (case dict_lookup d k of Some (PDict inner) \<Rightarrow> inner | _ \<Rightarrow> [])"

text \<open>
  The specification's account of the 2.0 index, in its own words. A descriptor or an
  endpoint has nullable fields (\<open>field\<close>: \<^verbatim>\<open>None\<close> when the key is absent); a
  descriptor has a list of endpoints (empty when absent). The list the index holds for
  (type, name, region) is, over the descriptors with that type and name in their declared
  order, the endpoints with that region in their declared order: nothing is dropped and
  nothing is merged.
\<close>

definition field :: "pyval \<Rightarrow> string \<Rightarrow> pyval" where
  "field obj name =
     (case obj of
        PDict d \<Rightarrow> (case dict_lookup d (PStr name) of None \<Rightarrow> PNone | Some v \<Rightarrow> v)
      | _ \<Rightarrow> PNone)"

definition endpoints_of :: "pyval \<Rightarrow> pyval list" where
  "endpoints_of service = (case field service ''endpoints'' of PList eps \<Rightarrow> eps | _ \<Rightarrow> [])"

definition spec_grouped :: "pyval list \<Rightarrow> pyval \<Rightarrow> pyval \<Rightarrow> pyval \<Rightarrow> pyval list" where
  "spec_grouped services t n r =
     concat (map (\<lambda>s. filter (\<lambda>e. py_eq (field e ''region'') r) (endpoints_of s))
                 (filter (\<lambda>s. py_eq (field s ''type'') t \<and> py_eq (field s ''name'') n) services))"

text \<open>
  A payload in the 2.0 shape is a list of descriptors. A descriptor is a dictionary with
  a \<^verbatim>\<open>type\<close>, an optional \<^verbatim>\<open>name\<close>, and an optional list \<^verbatim>\<open>endpoints\<close> of
  dictionaries with an optional \<^verbatim>\<open>region\<close>; types, names and regions are strings,
  \<^verbatim>\<open>null\<close>, numbers or booleans.
\<close>

definition v2_endpoint_ok :: "pyval \<Rightarrow> bool" where
  "v2_endpoint_ok e = (case e of PDict d \<Rightarrow> hashable (field e ''region'') | _ \<Rightarrow> False)"

definition v2_service_ok :: "pyval \<Rightarrow> bool" where
  "v2_service_ok s =
     (case s of
        PDict d \<Rightarrow>
          dict_lookup d (PStr ''type'') \<noteq> None
          \<and> hashable (field s ''type'') \<and> hashable (field s ''name'')
          \<and> (case dict_lookup d (PStr ''endpoints'') of
                None \<Rightarrow> True
              | Some (PList eps) \<Rightarrow> list_all v2_endpoint_ok eps
              | Some _ \<Rightarrow> False)
      | _ \<Rightarrow> False)"

section \<open>Concrete payloads, responses and collaborators\<close>

text \<open>A 2.0 catalog with one service that has an endpoint in each of two regions.\<close>

definition dfw_endpoint :: pyval where
  "dfw_endpoint = PDict [(PStr ''region'', PStr ''DFW''), (PStr ''publicURL'', PStr ''https://dfw.example/v2'')]"

definition ord_endpoint :: pyval where
  "ord_endpoint = PDict [(PStr ''region'', PStr ''ORD''), (PStr ''publicURL'', PStr ''https://ord.example/v2'')]"

definition two_region_payload :: pyval where
  "two_region_payload =
     PList [PDict [(PStr ''type'', PStr ''compute''), (PStr ''name'', PStr ''cloudServers''),
                   (PStr ''endpoints'', PList [dfw_endpoint, ord_endpoint])]]"

text \<open>A JSON library that parses nothing and prints nothing of interest.\<close>

definition loads_nothing :: "string \<Rightarrow> pyval option" where
  "loads_nothing text = None"

definition dumps_blank :: "pyval \<Rightarrow> string" where
  "dumps_blank v = ''{}''"

text \<open>An auth endpoint that answers every request with 401 and a body that is not JSON.\<close>

definition unauthorized_response :: auth_response where
  "unauthorized_response =
     \<lparr>resp_status = 401, resp_headers = [(''server'', ''nginx'')], resp_body = ''<html>denied</html>''\<rparr>"

definition unauthorized_endpoint :: "auth_request list \<Rightarrow> auth_request \<Rightarrow> error + auth_response" where
  "unauthorized_endpoint wire rq = Inr unauthorized_response"

definition unauthorized_env :: auth_env where
  "unauthorized_env =
     \<lparr>json_loads = loads_nothing, json_dumps = dumps_blank, auth_endpoint = unauthorized_endpoint\<rparr>"

text \<open>The same 401 labelled as JSON, and a 401 with no body at all.\<close>

definition mislabelled_response :: auth_response where
  "mislabelled_response =
     \<lparr>resp_status = 401, resp_headers = [(''content-type'', ''application/json'')],
      resp_body = ''<html>denied</html>''\<rparr>"

definition mislabelled_endpoint :: "auth_request list \<Rightarrow> auth_request \<Rightarrow> error + auth_response" where
  "mislabelled_endpoint wire rq = Inr mislabelled_response"

definition mislabelled_env :: auth_env where
  "mislabelled_env =
     \<lparr>json_loads = loads_nothing, json_dumps = dumps_blank, auth_endpoint = mislabelled_endpoint\<rparr>"

definition bare_401_response :: auth_response where
  "bare_401_response =
     \<lparr>resp_status = 401, resp_headers = [(''server'', ''nginx'')], resp_body = []\<rparr>"

definition bare_401_endpoint :: "auth_request list \<Rightarrow> auth_request \<Rightarrow> error + auth_response" where
  "bare_401_endpoint wire rq = Inr bare_401_response"

definition bare_401_env :: auth_env where
  "bare_401_env =
     \<lparr>json_loads = loads_nothing, json_dumps = dumps_blank, auth_endpoint = bare_401_endpoint\<rparr>"

text \<open>An auth endpoint that answers 200 with a well-formed 1.1 body (or, to a request
  for \<^verbatim>\<open>/v2.0/tokens/\<close>, a well-formed 2.0 body) whose token id is the empty string.\<close>

definition empty_token_text_1_1 :: string where
  "empty_token_text_1_1 = ''{\"auth\":{\"token\":{\"id\":\"\"},\"serviceCatalog\":{}}}''"

definition empty_token_text_2_0 :: string where
  "empty_token_text_2_0 = ''{\"access\":{\"token\":{\"id\":\"\"},\"serviceCatalog\":[]}}''"

definition empty_token_loads :: "string \<Rightarrow> pyval option" where
  "empty_token_loads text =
     (if text = empty_token_text_1_1 then
        Some (PDict [(PStr ''auth'',
                PDict [(PStr ''token'', PDict [(PStr ''id'', PStr [])]),
                       (PStr ''serviceCatalog'', PDict [])])])
      else if text = empty_token_text_2_0 then
        Some (PDict [(PStr ''access'',
                PDict [(PStr ''token'', PDict [(PStr ''id'', PStr [])]),
                       (PStr ''serviceCatalog'', PList [])])])
      else None)"

definition empty_token_endpoint :: "auth_request list \<Rightarrow> auth_request \<Rightarrow> error + auth_response" where
  "empty_token_endpoint wire rq =
     Inr \<lparr>resp_status = 200, resp_headers = [(''content-type'', ''application/json'')],
          resp_body = (if req_path rq = ''/v2.0/tokens/'' then empty_token_text_2_0
                       else empty_token_text_1_1)\<rparr>"

definition empty_token_env :: auth_env where
  "empty_token_env =
     \<lparr>json_loads = empty_token_loads, json_dumps = dumps_blank, auth_endpoint = empty_token_endpoint\<rparr>"

text \<open>The 1.1 response of the scenario: its text, and the value the text denotes.\<close>

definition scenario_text :: string where
  "scenario_text =
     ''{\"auth\":{\"token\":{\"id\":\"tok123\"},\"serviceCatalog\":{\"cloudServers\":[{\"region\":null,\"publicURL\":\"https://x/compute\"}]}}}''"

definition scenario_record :: pyval where
  "scenario_record = PDict [(PStr ''region'', PNone), (PStr ''publicURL'', PStr ''https://x/compute'')]"

definition scenario_value :: pyval where
  "scenario_value =
     PDict [(PStr ''auth'',
       PDict [(PStr ''token'', PDict [(PStr ''id'', PStr ''tok123'')]),
              (PStr ''serviceCatalog'', PDict [(PStr ''cloudServers'', PList [scenario_record])])])]"

definition scenario_loads :: "string \<Rightarrow> pyval option" where
  "scenario_loads text = (if text = scenario_text then Some scenario_value else None)"

definition scenario_endpoint :: "auth_request list \<Rightarrow> auth_request \<Rightarrow> error + auth_response" where
  "scenario_endpoint wire rq =
     Inr \<lparr>resp_status = 200, resp_headers = [(''content-type'', ''application/json'')],
          resp_body = scenario_text\<rparr>"

definition scenario_env :: auth_env where
  "scenario_env =
     \<lparr>json_loads = scenario_loads, json_dumps = dumps_blank, auth_endpoint = scenario_endpoint\<rparr>"

text \<open>The response of the scenario stripped of its headers.\<close>

definition headerless_endpoint :: "auth_request list \<Rightarrow> auth_request \<Rightarrow> error + auth_response" where
  "headerless_endpoint wire rq =
     Inr \<lparr>resp_status = 200, resp_headers = [], resp_body = scenario_text\<rparr>"

definition headerless_env :: auth_env where
  "headerless_env =
     \<lparr>json_loads = scenario_loads, json_dumps = dumps_blank, auth_endpoint = headerless_endpoint\<rparr>"

text \<open>A 1.0 response with a token and a storage URL but no management or CDN URL.\<close>

definition legacy_response :: auth_response where
  "legacy_response =
     \<lparr>resp_status = 204,
      resp_headers = [(''x-auth-token'', ''abc''), (''x-storage-url'', ''https://s.example/v1'')],
      resp_body = []\<rparr>"

definition legacy_endpoint :: "auth_request list \<Rightarrow> auth_request \<Rightarrow> error + auth_response" where
  "legacy_endpoint wire rq = Inr legacy_response"

definition legacy_env :: auth_env where
  "legacy_env =
     \<lparr>json_loads = loads_nothing, json_dumps = dumps_blank, auth_endpoint = legacy_endpoint\<rparr>"

text \<open>The request a 1.0 authentication sends for these credentials, and the auth
  connection after the response above.\<close>

definition legacy_request :: auth_request where
  "legacy_request =
     \<lparr>req_method = ''GET'', req_path = ''/v1.0'',
      req_headers = [(''X-Auth-User'', ''alice''), (''X-Auth-Key'', ''secret'')],
      req_data = None\<rparr>"

definition legacy_conn_after :: auth_conn where
  "legacy_conn_after =
     \<lparr>osa_auth_url = ''https://auth.example'', osa_auth_version = ''1.0'',
      osa_user_id = ''alice'', osa_key = ''secret'',
      osa_urls =
        PDict [(PStr ''cloudServers'', PList [PDict [(PStr ''publicURL'', PNone)]]),
               (PStr ''cloudFilesCDN'', PList [PDict [(PStr ''publicURL'', PNone)]]),
               (PStr ''cloudFiles'',
                PList [PDict [(PStr ''publicURL'', PStr ''https://s.example/v1'')]])],
      osa_auth_token = Some (PStr ''abc'')\<rparr>"

text \<open>Two 2.0 descriptors of the same type and name; the region DFW occurs in both.\<close>

definition dfw_internal_endpoint :: pyval where
  "dfw_internal_endpoint =
     PDict [(PStr ''region'', PStr ''DFW''), (PStr ''publicURL'', PStr ''https://dfw.internal/v2'')]"

definition accumulating_services :: "pyval list" where
  "accumulating_services =
     [PDict [(PStr ''type'', PStr ''compute''), (PStr ''name'', PStr ''cloudServers''),
             (PStr ''endpoints'', PList [dfw_endpoint, ord_endpoint])],
      PDict [(PStr ''type'', PStr ''compute''), (PStr ''name'', PStr ''cloudServers''),
             (PStr ''endpoints'', PList [dfw_internal_endpoint])]]"

text \<open>The index the constructor builds from the two-region catalog.\<close>

definition two_region_catalog :: catalog where
  "two_region_catalog =
     \<lparr>cat_auth_version = ''2.0'',
      cat_service_catalog =
        PDict [(PStr ''compute'',
          PDict [(PStr ''cloudServers'',
            PDict [(PStr ''DFW'', PList [dfw_endpoint]),
                   (PStr ''ORD'', PList [ord_endpoint])])])]\<rparr>"

text \<open>
  A driver whose \<^verbatim>\<open>get_endpoint\<close> follows the example in the docstring of the base
  class, a stand-in for \<^verbatim>\<open>_tuple_from_url\<close>, and base-class methods that do nothing.
\<close>

definition cloud_servers_endpoint :: "os_conn \<Rightarrow> error + pyval" where
  "cloud_servers_endpoint self =
     (case conn_service_catalog self of
        None \<Rightarrow> Inl AttributeError
      | Some sc \<Rightarrow>
          and_then (get_endpoint sc (PStr ''compute'') (PStr ''cloudServers'') PNone) (\<lambda>ep.
            py_getitem ep (PStr ''publicURL'')))"

definition url_as_host :: "pyval \<Rightarrow> error + (pyval \<times> pyval \<times> pyval \<times> pyval)" where
  "url_as_host url = Inr (url, PInt 443, PBool True, PStr ''/'')"

definition idle_request :: "os_conn \<Rightarrow> pyval \<Rightarrow> error + pyval" where
  "idle_request self kwargs = Inr PNone"

definition idle_hook :: "os_conn \<Rightarrow> string \<Rightarrow> error + string" where
  "idle_hook self action = Inr action"

definition driver_env :: "auth_env \<Rightarrow> conn_env" where
  "driver_env auth =
     \<lparr>auth_side = auth, driver_get_endpoint = cloud_servers_endpoint,
      tuple_from_url = url_as_host, base_request = idle_request,
      base_morph_action_hook = idle_hook\<rparr>"

text \<open>A connection that has not authenticated yet, for a given auth version and an
  optional forced base URL.\<close>

definition fresh_conn :: "string \<Rightarrow> string option \<Rightarrow> os_conn" where
  "fresh_conn version base_url =
     \<lparr>conn_user_id = ''alice'', conn_key = ''secret'',
      conn_auth_url = Some ''https://auth.example'',
      conn_ex_force_base_url = base_url, conn_ex_force_auth_url = None,
      conn_auth_version = version, conn_auth_token = PNone, conn_service_catalog = None,
      conn_host = PNone, conn_port = PNone, conn_secure = PBool True,
      conn_request_path = PStr []\<rparr>"

definition request_1_1 :: auth_request where
  "request_1_1 =
     \<lparr>req_method = ''POST'', req_path = ''/v1.1/auth'', req_headers = [], req_data = Some ''{}''\<rparr>"

text \<open>The same connection after its first request against the endpoint of the scenario.\<close>

definition authenticated_conn :: os_conn where
  "authenticated_conn =
     \<lparr>conn_user_id = ''alice'', conn_key = ''secret'',
      conn_auth_url = Some ''https://auth.example'',
      conn_ex_force_base_url = None, conn_ex_force_auth_url = None,
      conn_auth_version = ''1.1'', conn_auth_token = PStr ''tok123'',
      conn_service_catalog =
        Some \<lparr>cat_auth_version = ''1.1'',
              cat_service_catalog =
                PDict [(PStr ''cloudServers'', PDict [(PNone, PList [scenario_record])])]\<rparr>,
      conn_host = PStr ''https://x/compute'', conn_port = PInt 443, conn_secure = PBool True,
      conn_request_path = PStr ''/''\<rparr>"

text \<open>A connection with a forced base URL, before and after a request against the endpoint
  that hands out the empty token.\<close>

definition forced_conn :: os_conn where
  "forced_conn = fresh_conn ''1.1'' (Some ''https://api.example/v1'')"

definition forced_conn_after :: os_conn where
  "forced_conn_after =
     \<lparr>conn_user_id = ''alice'', conn_key = ''secret'',
      conn_auth_url = Some ''https://auth.example'',
      conn_ex_force_base_url = Some ''https://api.example/v1'', conn_ex_force_auth_url = None,
      conn_auth_version = ''1.1'', conn_auth_token = PStr [],
      conn_service_catalog = Some \<lparr>cat_auth_version = ''1.1'', cat_service_catalog = PDict []\<rparr>,
      conn_host = PStr ''https://api.example/v1'', conn_port = PInt 443, conn_secure = PBool True,
      conn_request_path = PStr ''/''\<rparr>"

section \<open>Dictionaries, paths and the shape of the index\<close>

subsection \<open>Keys\<close>

lemma py_eq_refl: "hashable a \<Longrightarrow> py_eq a a"
  by (cases a) auto

lemma py_eq_sym: "hashable a \<Longrightarrow> hashable b \<Longrightarrow> py_eq a b = py_eq b a"
  by (cases a; cases b) auto

lemma py_eq_trans: "hashable a \<Longrightarrow> hashable b \<Longrightarrow> hashable c \<Longrightarrow> py_eq a b \<Longrightarrow> py_eq b c \<Longrightarrow> py_eq a c"
  by (cases a; cases b; cases c) (auto split: if_splits)

lemma lookup_update_same: "hashable k \<Longrightarrow> dict_lookup (dict_update d k v) k = Some v"
  by (induction d) (auto simp: py_eq_refl)

lemma update_update_same: "hashable k \<Longrightarrow> dict_update (dict_update d k v) k w = dict_update d k w"
  by (induction d) (auto simp: py_eq_refl)

lemma update_lookup_id: "dict_lookup d k = Some v \<Longrightarrow> dict_update d k v = d"
  by (induction d) (auto split: if_splits)

subsection \<open>Updates along a path\<close>

lemma getpath_dict:
  "py_getpath (PDict d) (k # ks) =
     (if hashable k then (case dict_lookup d k of None \<Rightarrow> Inl KeyError | Some v \<Rightarrow> py_getpath v ks)
      else Inl TypeError)"
  by (simp add: and_then_def split: option.splits)

lemma setpath_inside:
  assumes "hashable k" "dict_lookup d k = Some inner" "ks \<noteq> []"
  shows "py_setpath (PDict d) (k # ks) v =
           and_then (py_setpath inner ks v) (\<lambda>inner'. Inr (PDict (dict_update d k inner')))"
  using assms by (cases ks) (auto simp: and_then_def split: sum.splits)

lemma ensure_inside:
  assumes "hashable k" "dict_lookup d k = Some inner"
  shows "py_ensure_at (PDict d) (k # path) key fresh =
           and_then (py_ensure_at inner path key fresh) (\<lambda>inner'. Inr (PDict (dict_update d k inner')))"
  using assms
  by (auto simp: py_ensure_at_def and_then_def setpath_inside update_lookup_id split: sum.splits)

lemma append_inside:
  assumes "hashable k" "dict_lookup d k = Some inner"
  shows "py_append_at (PDict d) (k # path) x =
           and_then (py_append_at inner path x) (\<lambda>inner'. Inr (PDict (dict_update d k inner')))"
proof (cases path)
  case Nil
  with assms show ?thesis by (auto simp: py_append_at_def and_then_def split: sum.splits)
next
  case (Cons a list)
  with assms show ?thesis
    by (auto simp: py_append_at_def and_then_def setpath_inside split: sum.splits)
qed

lemma v1_endpoint_inside:
  assumes "hashable n" "dict_lookup d1 n = Some regs"
  shows "parse_auth_v1_endpoint n ep (PDict d1) =
           and_then (region_step ep regs) (\<lambda>regs'. Inr (PDict (dict_update d1 n regs')))"
  using assms
  by (auto simp: parse_auth_v1_endpoint_def region_step_def ensure_inside append_inside
      and_then_def lookup_update_same update_update_same split: sum.splits)

lemma v2_endpoint_inside:
  assumes "hashable t" "dict_lookup d t = Some inner"
  shows "parse_auth_v2_endpoint t n ep (PDict d) =
           and_then (parse_auth_v1_endpoint n ep inner) (\<lambda>inner'. Inr (PDict (dict_update d t inner')))"
  using assms
  by (auto simp: parse_auth_v2_endpoint_def parse_auth_v1_endpoint_def ensure_inside append_inside
      and_then_def lookup_update_same update_update_same split: sum.splits)

lemma for_each_inside:
  assumes step: "\<And>x d inner. dict_lookup d k = Some inner \<Longrightarrow>
                   F x (PDict d) = and_then (G x inner) (\<lambda>inner'. Inr (PDict (dict_update d k inner')))"
      and "hashable k" "dict_lookup d k = Some inner"
  shows "for_each F xs (PDict d) =
           and_then (for_each G xs inner) (\<lambda>inner'. Inr (PDict (dict_update d k inner')))"
  using assms(3)
proof (induction xs arbitrary: d inner)
  case Nil
  then show ?case by (simp add: and_then_def update_lookup_id)
next
  case (Cons x xs)
  show ?case
  proof (cases "G x inner")
    case (Inl e)
    with Cons.prems show ?thesis by (simp add: step and_then_def)
  next
    case (Inr inner1)
    have "dict_lookup (dict_update d k inner1) k = Some inner1"
      using \<open>hashable k\<close> by (rule lookup_update_same)
    from Cons.IH [OF this] Inr Cons.prems show ?thesis
      by (simp add: step and_then_def update_update_same \<open>hashable k\<close>)
  qed
qed

subsection \<open>Lookup after update; the three levels\<close>

lemma hashable_keys_update:
  "hashable_keys d \<Longrightarrow> hashable k \<Longrightarrow> hashable_keys (dict_update d k v)"
  by (induction d) (auto simp: hashable_keys_def)

lemma lookup_cong:
  "hashable_keys d \<Longrightarrow> hashable k \<Longrightarrow> hashable k' \<Longrightarrow> py_eq k k' \<Longrightarrow>
     dict_lookup d k = dict_lookup d k'"
proof (induction d)
  case Nil
  then show ?case by simp
next
  case (Cons a d)
  obtain k0 v0 where a: "a = (k0, v0)" by (cases a)
  with Cons.prems have h0: "hashable k0" and hd: "hashable_keys d"
    by (auto simp: hashable_keys_def)
  have "py_eq k0 k = py_eq k0 k'"
    using h0 Cons.prems(2-4) py_eq_trans py_eq_sym by blast
  with Cons.IH [OF hd Cons.prems(2-4)] a show ?case by simp
qed

lemma lookup_update_other:
  "hashable_keys d \<Longrightarrow> hashable k \<Longrightarrow> hashable k' \<Longrightarrow> \<not> py_eq k k' \<Longrightarrow>
     dict_lookup (dict_update d k v) k' = dict_lookup d k'"
proof (induction d)
  case Nil
  then show ?case by simp
next
  case (Cons a d)
  obtain k0 v0 where a: "a = (k0, v0)" by (cases a)
  with Cons.prems have h0: "hashable k0" and hd: "hashable_keys d"
    by (auto simp: hashable_keys_def)
  have "py_eq k0 k \<Longrightarrow> \<not> py_eq k0 k'"
    using h0 Cons.prems(2-4) py_eq_trans py_eq_sym by blast
  with Cons.IH [OF hd Cons.prems(2-4)] a show ?case by auto
qed

lemma lookup_update:
  assumes "hashable_keys d" "hashable k" "hashable k'"
  shows "dict_lookup (dict_update d k v) k' = (if py_eq k k' then Some v else dict_lookup d k')"
proof (cases "py_eq k k'")
  case True
  have "dict_lookup (dict_update d k v) k' = dict_lookup (dict_update d k v) k"
    using assms True by (intro lookup_cong [symmetric] hashable_keys_update)
  with True assms show ?thesis by (simp add: lookup_update_same)
next
  case False
  with assms show ?thesis by (simp add: lookup_update_other)
qed

lemma region_dict_keys: "region_dict d \<Longrightarrow> hashable_keys d"
  by (induction d) (auto simp: region_dict_def hashable_keys_def)

lemma name_dict_keys: "name_dict d \<Longrightarrow> hashable_keys d"
  by (induction d) (auto simp: name_dict_def hashable_keys_def)

lemma type_dict_keys: "type_dict d \<Longrightarrow> hashable_keys d"
  by (induction d) (auto simp: type_dict_def hashable_keys_def)

lemma lookup_in_set: "dict_lookup d k = Some v \<Longrightarrow> \<exists>k0. (k0, v) \<in> set d"
  by (induction d) (auto split: if_splits)

lemma region_dict_lookup:
  assumes "region_dict d" "dict_lookup d k = Some v"
  shows "\<exists>es. v = PList es \<and> es \<noteq> []"
proof -
  from lookup_in_set [OF assms(2)] obtain k0 where "(k0, v) \<in> set d" ..
  with assms(1) show ?thesis
    by (cases v) (auto simp: region_dict_def list_all_iff)
qed

lemma name_dict_lookup:
  assumes "name_dict d" "dict_lookup d k = Some v"
  shows "\<exists>d2. v = PDict d2 \<and> region_dict d2"
proof -
  from lookup_in_set [OF assms(2)] obtain k0 where "(k0, v) \<in> set d" ..
  with assms(1) show ?thesis
    by (cases v) (auto simp: name_dict_def list_all_iff)
qed

lemma type_dict_lookup:
  assumes "type_dict d" "dict_lookup d k = Some v"
  shows "\<exists>d1. v = PDict d1 \<and> name_dict d1"
proof -
  from lookup_in_set [OF assms(2)] obtain k0 where "(k0, v) \<in> set d" ..
  with assms(1) show ?thesis
    by (cases v) (auto simp: type_dict_def list_all_iff)
qed

lemma region_dict_update:
  "region_dict d \<Longrightarrow> hashable k \<Longrightarrow> es \<noteq> [] \<Longrightarrow> region_dict (dict_update d k (PList es))"
  by (induction d) (auto simp: region_dict_def)

lemma name_dict_update:
  "name_dict d \<Longrightarrow> hashable k \<Longrightarrow> region_dict d2 \<Longrightarrow> name_dict (dict_update d k (PDict d2))"
  by (induction d) (auto simp: name_dict_def)

lemma type_dict_update:
  "type_dict d \<Longrightarrow> hashable k \<Longrightarrow> name_dict d1 \<Longrightarrow> type_dict (dict_update d k (PDict d1))"
  by (induction d) (auto simp: type_dict_def)

lemma region_dict_Nil: "region_dict []" by (simp add: region_dict_def)
lemma name_dict_Nil: "name_dict []" by (simp add: name_dict_def)
lemma type_dict_Nil: "type_dict []" by (simp add: type_dict_def)

lemma sub_dict_name: "type_dict d \<Longrightarrow> name_dict (sub_dict d t)"
  by (auto simp: sub_dict_def name_dict_Nil split: option.splits pyval.splits dest: type_dict_lookup)

lemma sub_dict_region: "name_dict d \<Longrightarrow> region_dict (sub_dict d n)"
  by (auto simp: sub_dict_def region_dict_Nil split: option.splits pyval.splits dest: name_dict_lookup)

text \<open>The inner loop body on a dictionary of regions.\<close>

lemma region_step_eq:
  assumes "region_dict d"
  shows "region_step ep (PDict d) =
     (case ep of
        PDict ed \<Rightarrow>
          if hashable (field ep ''region'')
          then Inr (PDict (dict_update d (field ep ''region'')
                      (PList (regs_at d (field ep ''region'') @ [ep]))))
          else Inl TypeError
      | _ \<Rightarrow> Inl AttributeError)"
proof (cases ep)
  case (PDict ed)
  let ?r = "field ep ''region''"
  have get: "py_get ep (PStr ''region'') PNone = Inr ?r"
    using PDict by (simp add: field_def)
  show ?thesis
  proof (cases "hashable ?r")
    case False
    with PDict get show ?thesis
      by (simp add: region_step_def and_then_def py_ensure_at_def)
  next
    case True
    show ?thesis
    proof (cases "dict_lookup d ?r")
      case None
      with True PDict get show ?thesis
        by (simp add: region_step_def and_then_def py_ensure_at_def py_append_at_def regs_at_def
            lookup_update_same update_update_same)
    next
      case (Some v)
      with region_dict_lookup [OF assms Some] obtain es where "v = PList es" by blast
      with Some True PDict get show ?thesis
        by (simp add: region_step_def and_then_def py_ensure_at_def py_append_at_def regs_at_def)
    qed
  qed
qed (simp_all add: region_step_def and_then_def)

lemma regs_at_update:
  assumes "region_dict d" "hashable r" "hashable r'"
  shows "regs_at (dict_update d r (PList (regs_at d r @ [ep]))) r' =
           regs_at d r' @ (if py_eq r r' then [ep] else [])"
proof (cases "py_eq r r'")
  case True
  then have "dict_lookup d r = dict_lookup d r'"
    using assms by (intro lookup_cong region_dict_keys)
  then have "regs_at d r = regs_at d r'" by (simp add: regs_at_def)
  with True assms show ?thesis
    by (simp add: regs_at_def lookup_update region_dict_keys)
next
  case False
  with assms show ?thesis by (simp add: regs_at_def lookup_update region_dict_keys)
qed

lemma region_loop_general:
  assumes "region_dict d" "for_each region_step eps (PDict d) = Inr x"
  shows "\<exists>d'. x = PDict d' \<and> region_dict d'"
  using assms
proof (induction eps arbitrary: d)
  case Nil
  then show ?case by auto
next
  case (Cons ep eps)
  from Cons.prems obtain y where y: "region_step ep (PDict d) = Inr y"
    and rest: "for_each region_step eps y = Inr x"
    by (auto split: sum.splits)
  from y Cons.prems(1) obtain d1 where "y = PDict d1" "region_dict d1"
    by (auto simp: region_step_eq region_dict_update split: pyval.splits if_splits)
  with Cons.IH rest show ?case by blast
qed

lemma region_loop_shape:
  assumes "region_dict d" "list_all v2_endpoint_ok eps"
  shows "\<exists>d'. for_each region_step eps (PDict d) = Inr (PDict d') \<and> region_dict d'
           \<and> (\<forall>r. hashable r \<longrightarrow>
                 regs_at d' r = regs_at d r @ filter (\<lambda>e. py_eq (field e ''region'') r) eps)"
  using assms
proof (induction eps arbitrary: d)
  case Nil
  then show ?case by auto
next
  case (Cons ep eps)
  let ?r = "field ep ''region''"
  let ?d1 = "dict_update d ?r (PList (regs_at d ?r @ [ep]))"
  from Cons.prems(2) have ok: "v2_endpoint_ok ep" and oks: "list_all v2_endpoint_ok eps" by auto
  from ok have hr: "hashable ?r" and "\<exists>ed. ep = PDict ed"
    by (auto simp: v2_endpoint_ok_def split: pyval.splits)
  then have step: "region_step ep (PDict d) = Inr (PDict ?d1)"
    using Cons.prems(1) by (auto simp: region_step_eq)
  have rd1: "region_dict ?d1"
    using Cons.prems(1) hr by (simp add: region_dict_update)
  from Cons.IH [OF rd1 oks] obtain d' where
    loop: "for_each region_step eps (PDict ?d1) = Inr (PDict d')" and rd': "region_dict d'"
    and at: "\<And>r. hashable r \<Longrightarrow>
               regs_at d' r = regs_at ?d1 r @ filter (\<lambda>e. py_eq (field e ''region'') r) eps"
    by blast
  have "regs_at d' r = regs_at d r @ filter (\<lambda>e. py_eq (field e ''region'') r) (ep # eps)"
    if "hashable r" for r
    using at [OF that] regs_at_update [OF Cons.prems(1) hr that, of ep] by simp
  with step loop rd' show ?case by auto
qed

subsection \<open>The loops of the 2.0 parser\<close>

lemma ensure_top:
  "hashable k \<Longrightarrow>
   py_ensure_at (PDict d) [] k fresh =
     Inr (PDict (if dict_lookup d k = None then dict_update d k fresh else d))"
  by (simp add: py_ensure_at_def and_then_def)

lemma ensure_top_unhashable:
  "\<not> hashable k \<Longrightarrow> py_ensure_at (PDict d) [] k fresh = Inl TypeError"
  by (simp add: py_ensure_at_def and_then_def)

lemma v2_endpoints_loop:
  assumes "hashable t" "hashable n" "dict_lookup d t = Some (PDict d1)" "dict_lookup d1 n = Some regs"
  shows "for_each (parse_auth_v2_endpoint t n) eps (PDict d) =
           and_then (for_each region_step eps regs)
             (\<lambda>regs'. Inr (PDict (dict_update d t (PDict (dict_update d1 n regs')))))"
proof -
  have outer: "for_each (parse_auth_v2_endpoint t n) eps (PDict d) =
      and_then (for_each (parse_auth_v1_endpoint n) eps (PDict d1))
        (\<lambda>inner'. Inr (PDict (dict_update d t inner')))"
    by (rule for_each_inside) (simp_all add: assms v2_endpoint_inside)
  have inner: "for_each (parse_auth_v1_endpoint n) eps (PDict d1) =
      and_then (for_each region_step eps regs)
        (\<lambda>regs'. Inr (PDict (dict_update d1 n regs')))"
    by (rule for_each_inside) (simp_all add: assms v1_endpoint_inside)
  show ?thesis
    unfolding outer inner by (simp add: and_then_def split: sum.splits)
qed

lemma v2_service_body:
  assumes td: "type_dict d" and ht: "hashable t" and hn: "hashable n"
  shows "and_then (py_ensure_at (PDict d) [] t (PDict [])) (\<lambda>idx1.
         and_then (py_ensure_at idx1 [t] n (PDict [])) (\<lambda>idx2.
           for_each (parse_auth_v2_endpoint t n) eps idx2))
       = and_then (for_each region_step eps (PDict (sub_dict (sub_dict d t) n)))
           (\<lambda>regs'. Inr (PDict (dict_update d t (PDict (dict_update (sub_dict d t) n regs')))))"
proof -
  define d1 where "d1 = sub_dict d t"
  define d2 where "d2 = sub_dict d1 n"
  define da where "da = (if dict_lookup d t = None then dict_update d t (PDict []) else d)"
  define d1b where "d1b = (if dict_lookup d1 n = None then dict_update d1 n (PDict []) else d1)"
  define db where "db = dict_update d t (PDict d1b)"
  have nd1: "name_dict d1" unfolding d1_def using td by (rule sub_dict_name)
  have la: "dict_lookup da t = Some (PDict d1)"
    using ht td by (auto simp: da_def d1_def sub_dict_def lookup_update_same dest: type_dict_lookup)
  have ua: "dict_update da t v = dict_update d t v" for v
    using ht by (simp add: da_def update_update_same)
  have l1b: "dict_lookup d1b n = Some (PDict d2)"
    using hn nd1 by (auto simp: d1b_def d2_def sub_dict_def lookup_update_same dest: name_dict_lookup)
  have u1b: "dict_update d1b n v = dict_update d1 n v" for v
    using hn by (simp add: d1b_def update_update_same)
  have A: "py_ensure_at (PDict d) [] t (PDict []) = Inr (PDict da)"
    unfolding da_def using ht by (rule ensure_top)
  have "py_ensure_at (PDict d1) [] n (PDict []) = Inr (PDict d1b)"
    unfolding d1b_def using hn by (rule ensure_top)
  then have B: "py_ensure_at (PDict da) [t] n (PDict []) = Inr (PDict db)"
    by (simp add: ensure_inside [OF ht la] and_then_def ua db_def)
  have lb: "dict_lookup db t = Some (PDict d1b)"
    unfolding db_def using ht by (rule lookup_update_same)
  have ub: "dict_update db t v = dict_update d t v" for v
    unfolding db_def using ht by (rule update_update_same)
  have C: "for_each (parse_auth_v2_endpoint t n) eps (PDict db) =
      and_then (for_each region_step eps (PDict d2))
        (\<lambda>regs'. Inr (PDict (dict_update d t (PDict (dict_update d1 n regs')))))"
    using v2_endpoints_loop [OF ht hn lb l1b, of eps] by (simp add: ub u1b)
  have "and_then (py_ensure_at (PDict d) [] t (PDict [])) (\<lambda>idx1.
         and_then (py_ensure_at idx1 [t] n (PDict [])) (\<lambda>idx2.
           for_each (parse_auth_v2_endpoint t n) eps idx2))
       = for_each (parse_auth_v2_endpoint t n) eps (PDict db)"
    by (simp add: A B and_then_def)
  with C show ?thesis by (simp add: d1_def d2_def)
qed

lemma v2_service_general:
  assumes td: "type_dict d" and ok: "parse_auth_v2_service s (PDict d) = Inr x"
  shows "\<exists>d'. x = PDict d' \<and> type_dict d'"
proof -
  from ok obtain t where t: "py_getitem s (PStr ''type'') = Inr t"
    by (cases "py_getitem s (PStr ''type'')") (auto simp: parse_auth_v2_service_def and_then_def)
  from ok t obtain n where n: "py_get s (PStr ''name'') PNone = Inr n"
    by (cases "py_get s (PStr ''name'') PNone") (auto simp: parse_auth_v2_service_def and_then_def)
  have ht: "hashable t"
  proof (rule ccontr)
    assume "\<not> hashable t"
    with ok t n show False
      by (simp add: parse_auth_v2_service_def and_then_def ensure_top_unhashable)
  qed
  let ?d1 = "sub_dict d t"
  let ?da = "if dict_lookup d t = None then dict_update d t (PDict []) else d"
  have la: "dict_lookup ?da t = Some (PDict ?d1)"
    using ht td by (auto simp: sub_dict_def lookup_update_same dest: type_dict_lookup)
  have hn: "hashable n"
  proof (rule ccontr)
    assume "\<not> hashable n"
    then have "py_ensure_at (PDict ?da) [t] n (PDict []) = Inl TypeError"
      by (simp add: ensure_inside [OF ht la] ensure_top_unhashable and_then_def)
    with ok t n ht show False
      by (simp add: parse_auth_v2_service_def and_then_def ensure_top)
  qed
  from ok t n obtain e eps where e: "py_get s (PStr ''endpoints'') (PList []) = Inr e"
    and eps: "py_iter e = Inr eps"
    by (cases "py_get s (PStr ''endpoints'') (PList [])"; cases "py_iter (projr (py_get s (PStr ''endpoints'') (PList [])))")
       (auto simp: parse_auth_v2_service_def and_then_def ensure_top ht
             ensure_inside [OF ht la] ensure_top [OF hn] split: sum.splits)
  have "parse_auth_v2_service s (PDict d) =
      and_then (py_ensure_at (PDict d) [] t (PDict [])) (\<lambda>idx1.
         and_then (py_ensure_at idx1 [t] n (PDict [])) (\<lambda>idx2.
           for_each (parse_auth_v2_endpoint t n) eps idx2))"
    using t n e eps
    by (auto simp: parse_auth_v2_service_def and_then_def split: sum.splits)
  with ok have run: "and_then (for_each region_step eps (PDict (sub_dict ?d1 n)))
           (\<lambda>regs'. Inr (PDict (dict_update d t (PDict (dict_update ?d1 n regs'))))) = Inr x"
    by (simp add: v2_service_body [OF td ht hn])
  then obtain regs' where loop: "for_each region_step eps (PDict (sub_dict ?d1 n)) = Inr regs'"
    and x: "x = PDict (dict_update d t (PDict (dict_update ?d1 n regs')))"
    by (auto simp: and_then_def split: sum.splits)
  have nd1: "name_dict ?d1" using td by (rule sub_dict_name)
  from region_loop_general [OF sub_dict_region [OF nd1] loop]
  obtain d2' where "regs' = PDict d2'" "region_dict d2'" by blast
  with x td ht hn nd1 show ?thesis
    by (simp add: type_dict_update name_dict_update)
qed

lemma v2_loop_general:
  assumes "type_dict d" "for_each parse_auth_v2_service svcs (PDict d) = Inr x"
  shows "\<exists>d'. x = PDict d' \<and> type_dict d'"
  using assms
proof (induction svcs arbitrary: d)
  case Nil
  then show ?case by auto
next
  case (Cons s svcs)
  from Cons.prems obtain y where y: "parse_auth_v2_service s (PDict d) = Inr y"
    and rest: "for_each parse_auth_v2_service svcs y = Inr x"
    by (auto split: sum.splits)
  from v2_service_general [OF Cons.prems(1) y] obtain d1 where "y = PDict d1" "type_dict d1"
    by blast
  with Cons.IH rest show ?case by blast
qed

lemma v1_service_eq:
  "parse_auth_v1_service (service, endpoints) (PDict d) =
     (if hashable service
      then and_then (py_iter endpoints) (\<lambda>eps.
           and_then (for_each region_step eps (PDict [])) (\<lambda>regs'.
             Inr (PDict (dict_update d service regs'))))
      else Inl TypeError)"
proof (cases "hashable service")
  case False
  then show ?thesis by (simp add: parse_auth_v1_service_def and_then_def)
next
  case True
  have "for_each (parse_auth_v1_endpoint service) eps (PDict (dict_update d service (PDict []))) =
      and_then (for_each region_step eps (PDict []))
        (\<lambda>regs'. Inr (PDict (dict_update d service regs')))" for eps
    using for_each_inside [of service "parse_auth_v1_endpoint service" region_step
        "dict_update d service (PDict [])" "PDict []" eps] True
    by (simp add: v1_endpoint_inside lookup_update_same update_update_same)
  with True show ?thesis
    by (simp add: parse_auth_v1_service_def and_then_def split: sum.splits)
qed

lemma v1_service_general:
  assumes nd: "name_dict d" and ok: "parse_auth_v1_service item (PDict d) = Inr x"
  shows "\<exists>d'. x = PDict d' \<and> name_dict d'"
proof -
  obtain service endpoints where item: "item = (service, endpoints)" by (cases item)
  from ok item have hs: "hashable service"
    by (auto simp: v1_service_eq split: if_splits)
  from ok item hs obtain eps regs' where "py_iter endpoints = Inr eps"
    and loop: "for_each region_step eps (PDict []) = Inr regs'"
    and x: "x = PDict (dict_update d service regs')"
    by (auto simp: v1_service_eq and_then_def split: sum.splits)
  from region_loop_general [OF region_dict_Nil loop]
  obtain d2' where "regs' = PDict d2'" "region_dict d2'" by blast
  with x nd hs show ?thesis by (simp add: name_dict_update)
qed

lemma v1_loop_general:
  assumes "name_dict d" "for_each parse_auth_v1_service items (PDict d) = Inr x"
  shows "\<exists>d'. x = PDict d' \<and> name_dict d'"
  using assms
proof (induction items arbitrary: d)
  case Nil
  then show ?case by auto
next
  case (Cons item items)
  from Cons.prems obtain y where y: "parse_auth_v1_service item (PDict d) = Inr y"
    and rest: "for_each parse_auth_v1_service items y = Inr x"
    by (auto split: sum.splits)
  from v1_service_general [OF Cons.prems(1) y] obtain d1 where "y = PDict d1" "name_dict d1"
    by blast
  with Cons.IH rest show ?case by blast
qed

text \<open>What the constructor establishes.\<close>

lemma init_invariant:
  assumes "OpenStackServiceCatalog_init payload version = Inr sc"
  shows "\<exists>d. cat_service_catalog sc = PDict d
           \<and> (if str_in ''2.0'' (cat_auth_version sc) then type_dict d
               else (str_in ''1.1'' (cat_auth_version sc) \<or> str_in ''1.0'' (cat_auth_version sc))
                    \<and> name_dict d)"
proof -
  define v where "v = (case version of None \<Rightarrow> AUTH_API_VERSION
                       | Some v \<Rightarrow> if v \<noteq> [] then v else AUTH_API_VERSION)"
  show ?thesis
  proof (cases "str_in ''2.0'' v")
    case True
    with assms obtain idx where p: "parse_auth_v2 payload (PDict []) = Inr idx"
      and sc: "sc = \<lparr>cat_auth_version = v, cat_service_catalog = idx\<rparr>"
      by (auto simp: OpenStackServiceCatalog_init_def Let_def v_def and_then_def split: sum.splits)
    from p obtain svcs where "for_each parse_auth_v2_service svcs (PDict []) = Inr idx"
      by (auto simp: parse_auth_v2_def and_then_def split: sum.splits)
    from v2_loop_general [OF type_dict_Nil this] sc True show ?thesis by auto
  next
    case False
    with assms have fam: "str_in ''1.1'' v \<or> str_in ''1.0'' v"
      by (auto simp: OpenStackServiceCatalog_init_def Let_def v_def split: if_splits)
    with False assms obtain idx where p: "parse_auth_v1 payload (PDict []) = Inr idx"
      and sc: "sc = \<lparr>cat_auth_version = v, cat_service_catalog = idx\<rparr>"
      by (auto simp: OpenStackServiceCatalog_init_def Let_def v_def and_then_def split: sum.splits)
    from p obtain items where "for_each parse_auth_v1_service items (PDict []) = Inr idx"
      by (auto simp: parse_auth_v1_def and_then_def split: sum.splits)
    from v1_loop_general [OF name_dict_Nil this] sc False fam show ?thesis by auto
  qed
qed

subsection \<open>Reading the index\<close>

lemma sub_dict_update:
  "hashable_keys d \<Longrightarrow> hashable k \<Longrightarrow> hashable k' \<Longrightarrow>
   sub_dict (dict_update d k (PDict x)) k' = (if py_eq k k' then x else sub_dict d k')"
  by (simp add: sub_dict_def lookup_update)

lemma sub_dict_cong:
  "hashable_keys d \<Longrightarrow> hashable k \<Longrightarrow> hashable k' \<Longrightarrow> py_eq k k' \<Longrightarrow>
   sub_dict d k = sub_dict d k'"
  by (simp add: sub_dict_def lookup_cong [of d k k'])

lemma regs_at_Nil: "regs_at [] r = []"
  by (simp add: regs_at_def)

lemma sub_dict_Nil: "sub_dict [] k = []"
  by (simp add: sub_dict_def)

lemma getpath1:
  "hashable t \<Longrightarrow> (\<exists>v. py_getpath (PDict d) [t] = Inr v) = (dict_lookup d t \<noteq> None)"
  by (auto simp: and_then_def split: option.splits)

lemma getpath2:
  assumes "type_dict d" "hashable t" "hashable n"
  shows "(\<exists>v. py_getpath (PDict d) [t, n] = Inr v) = (dict_lookup (sub_dict d t) n \<noteq> None)"
proof (cases "dict_lookup d t")
  case None
  with assms show ?thesis by (simp add: and_then_def sub_dict_def)
next
  case (Some v)
  with type_dict_lookup [OF assms(1) Some] obtain d1 where "v = PDict d1" by blast
  with Some assms show ?thesis
    by (auto simp: and_then_def sub_dict_def split: option.splits)
qed

lemma getpath3:
  assumes "type_dict d" "hashable t" "hashable n" "hashable r"
  shows "py_getpath (PDict d) [t, n, r] =
           (if regs_at (sub_dict (sub_dict d t) n) r = [] then Inl KeyError
            else Inr (PList (regs_at (sub_dict (sub_dict d t) n) r)))"
proof (cases "dict_lookup d t")
  case None
  with assms show ?thesis by (simp add: and_then_def sub_dict_def regs_at_def)
next
  case t: (Some v)
  with type_dict_lookup [OF assms(1) t] obtain d1 where v: "v = PDict d1" and nd: "name_dict d1"
    by blast
  show ?thesis
  proof (cases "dict_lookup d1 n")
    case None
    with t v assms show ?thesis by (simp add: and_then_def sub_dict_def regs_at_def)
  next
    case n: (Some v1)
    with name_dict_lookup [OF nd n] obtain d2 where v1: "v1 = PDict d2" and rd: "region_dict d2"
      by blast
    show ?thesis
    proof (cases "dict_lookup d2 r")
      case None
      with t v n v1 assms show ?thesis by (simp add: and_then_def sub_dict_def regs_at_def)
    next
      case r: (Some v2)
      with region_dict_lookup [OF rd r] obtain es where "v2 = PList es" "es \<noteq> []" by blast
      with t v n v1 r assms show ?thesis by (simp add: and_then_def sub_dict_def regs_at_def)
    qed
  qed
qed

lemma getpath2_v1:
  assumes "name_dict d" "hashable n" "hashable r"
  shows "py_getpath (PDict d) [n, r] =
           (if regs_at (sub_dict d n) r = [] then Inl KeyError
            else Inr (PList (regs_at (sub_dict d n) r)))"
proof (cases "dict_lookup d n")
  case None
  with assms show ?thesis by (simp add: and_then_def sub_dict_def regs_at_def)
next
  case n: (Some v1)
  with name_dict_lookup [OF assms(1) n] obtain d2 where v1: "v1 = PDict d2" and rd: "region_dict d2"
    by blast
  show ?thesis
  proof (cases "dict_lookup d2 r")
    case None
    with n v1 assms show ?thesis by (simp add: and_then_def sub_dict_def regs_at_def)
  next
    case r: (Some v2)
    with region_dict_lookup [OF rd r] obtain es where "v2 = PList es" "es \<noteq> []" by blast
    with n v1 r assms show ?thesis by (simp add: and_then_def sub_dict_def regs_at_def)
  qed
qed

lemma get_sub_dict:
  assumes "\<And>k v. dict_lookup d k = Some v \<Longrightarrow> \<exists>x. v = PDict x" "hashable k"
  shows "py_get (PDict d) k (PDict []) = Inr (PDict (sub_dict d k))"
proof (cases "dict_lookup d k")
  case None
  with assms(2) show ?thesis by (simp add: sub_dict_def)
next
  case (Some v)
  with assms(1) [OF Some] assms(2) show ?thesis by (auto simp: sub_dict_def)
qed

lemma get_regs_at:
  assumes "region_dict d" "hashable r"
  shows "py_get (PDict d) r (PList []) = Inr (PList (regs_at d r))"
proof (cases "dict_lookup d r")
  case None
  with assms(2) show ?thesis by (simp add: regs_at_def)
next
  case (Some v)
  with region_dict_lookup [OF assms(1) Some] assms(2) show ?thesis by (auto simp: regs_at_def)
qed

lemma resolve_v2:
  assumes "type_dict d" "str_in ''2.0'' (cat_auth_version sc)" "cat_service_catalog sc = PDict d"
    "hashable t" "hashable n" "hashable r"
  shows "resolve_endpoints sc t n r = Inr (PList (regs_at (sub_dict (sub_dict d t) n) r))"
proof -
  have 1: "py_get (PDict d) t (PDict []) = Inr (PDict (sub_dict d t))"
    using assms(1,4) by (intro get_sub_dict) (auto dest: type_dict_lookup)
  have nd: "name_dict (sub_dict d t)" using assms(1) by (rule sub_dict_name)
  have 2: "py_get (PDict (sub_dict d t)) n (PDict []) = Inr (PDict (sub_dict (sub_dict d t) n))"
    using nd assms(5) by (intro get_sub_dict) (auto dest: name_dict_lookup)
  have 3: "py_get (PDict (sub_dict (sub_dict d t) n)) r (PList []) =
             Inr (PList (regs_at (sub_dict (sub_dict d t) n) r))"
    using sub_dict_region [OF nd] assms(6) by (rule get_regs_at)
  show ?thesis using assms(2,3) by (simp add: resolve_endpoints_def and_then_def 1 2 3 del: py_get.simps)
qed

lemma resolve_v1:
  assumes "name_dict d" "\<not> str_in ''2.0'' (cat_auth_version sc)"
    "str_in ''1.1'' (cat_auth_version sc) \<or> str_in ''1.0'' (cat_auth_version sc)"
    "cat_service_catalog sc = PDict d" "hashable n" "hashable r"
  shows "resolve_endpoints sc t n r = Inr (PList (regs_at (sub_dict d n) r))"
proof -
  have 2: "py_get (PDict d) n (PDict []) = Inr (PDict (sub_dict d n))"
    using assms(1,5) by (intro get_sub_dict) (auto dest: name_dict_lookup)
  have 3: "py_get (PDict (sub_dict d n)) r (PList []) = Inr (PList (regs_at (sub_dict d n) r))"
    using sub_dict_region [OF assms(1)] assms(6) by (rule get_regs_at)
  show ?thesis using assms(2,3,4) by (auto simp add: resolve_endpoints_def and_then_def 2 3 simp del: py_get.simps)
qed

lemma get_endpoint_of_list:
  "resolve_endpoints sc t n r = Inr (PList es) \<Longrightarrow>
   get_endpoint sc t n r = Inr (if length es = 1 then hd es else PDict [])"
  by (cases es) (auto simp: get_endpoint_def and_then_def seq_position_def)

subsection \<open>What one descriptor adds to the index\<close>

lemma v2_service_effect:
  assumes td: "type_dict d" and ok: "v2_service_ok s"
  shows "\<exists>d'. parse_auth_v2_service s (PDict d) = Inr (PDict d') \<and> type_dict d'
     \<and> (\<forall>t n r. hashable t \<longrightarrow> hashable n \<longrightarrow> hashable r \<longrightarrow>
          regs_at (sub_dict (sub_dict d' t) n) r =
            regs_at (sub_dict (sub_dict d t) n) r @
            (if py_eq (field s ''type'') t \<and> py_eq (field s ''name'') n
             then filter (\<lambda>e. py_eq (field e ''region'') r) (endpoints_of s) else []))
     \<and> (\<forall>t n. hashable t \<longrightarrow> hashable n \<longrightarrow>
          (dict_lookup (sub_dict d' t) n \<noteq> None) =
            (dict_lookup (sub_dict d t) n \<noteq> None
             \<or> py_eq (field s ''type'') t \<and> py_eq (field s ''name'') n))
     \<and> (\<forall>t. hashable t \<longrightarrow>
          (dict_lookup d' t \<noteq> None) = (dict_lookup d t \<noteq> None \<or> py_eq (field s ''type'') t))"
proof -
  define t0 where "t0 = field s ''type''"
  define n0 where "n0 = field s ''name''"
  define eps where "eps = endpoints_of s"
  define d1 where "d1 = sub_dict d t0"
  define d2 where "d2 = sub_dict d1 n0"
  from ok obtain sd where s: "s = PDict sd" by (cases s) (auto simp: v2_service_ok_def)
  from ok s have ht: "hashable t0" and hn: "hashable n0"
    and ty: "py_getitem s (PStr ''type'') = Inr t0"
    and nm: "py_get s (PStr ''name'') PNone = Inr n0"
    by (auto simp: v2_service_ok_def t0_def n0_def field_def split: option.splits)
  from ok s have en: "py_get s (PStr ''endpoints'') (PList []) = Inr (PList eps)"
    and oks: "list_all v2_endpoint_ok eps"
    by (auto simp: v2_service_ok_def eps_def endpoints_of_def field_def
             split: option.splits pyval.splits)
  have nd1: "name_dict d1" unfolding d1_def using td by (rule sub_dict_name)
  have rd2: "region_dict d2" unfolding d2_def using nd1 by (rule sub_dict_region)
  from region_loop_shape [OF rd2 oks] obtain d2' where
    loop: "for_each region_step eps (PDict d2) = Inr (PDict d2')" and rd2': "region_dict d2'"
    and at: "\<And>r. hashable r \<Longrightarrow>
               regs_at d2' r = regs_at d2 r @ filter (\<lambda>e. py_eq (field e ''region'') r) eps"
    by blast
  define d1' where "d1' = dict_update d1 n0 (PDict d2')"
  define d' where "d' = dict_update d t0 (PDict d1')"
  have "parse_auth_v2_service s (PDict d) =
      and_then (py_ensure_at (PDict d) [] t0 (PDict [])) (\<lambda>idx1.
         and_then (py_ensure_at idx1 [t0] n0 (PDict [])) (\<lambda>idx2.
           for_each (parse_auth_v2_endpoint t0 n0) eps idx2))"
    using ty nm en by (simp add: parse_auth_v2_service_def and_then_def del: py_get.simps py_getitem.simps)
  also have "\<dots> = and_then (for_each region_step eps (PDict d2))
           (\<lambda>regs'. Inr (PDict (dict_update d t0 (PDict (dict_update d1 n0 regs')))))"
    unfolding d1_def d2_def by (rule v2_service_body [OF td ht hn])
  also have "\<dots> = Inr (PDict d')"
    by (simp add: loop and_then_def d'_def d1'_def)
  finally have run: "parse_auth_v2_service s (PDict d) = Inr (PDict d')" .
  have nd1': "name_dict d1'"
    unfolding d1'_def using nd1 hn rd2' by (rule name_dict_update)
  have td': "type_dict d'"
    unfolding d'_def using td ht nd1' by (rule type_dict_update)
  have kd: "hashable_keys d" using td by (rule type_dict_keys)
  have kd1: "hashable_keys d1" using nd1 by (rule name_dict_keys)
  have sub1: "sub_dict d' t = (if py_eq t0 t then d1' else sub_dict d t)" if "hashable t" for t
    unfolding d'_def using kd ht that by (rule sub_dict_update)
  have same1: "sub_dict d t = d1" if "hashable t" "py_eq t0 t" for t
    unfolding d1_def using kd ht that by (intro sub_dict_cong [symmetric])
  have sub2: "sub_dict d1' n = (if py_eq n0 n then d2' else sub_dict d1 n)" if "hashable n" for n
    unfolding d1'_def using kd1 hn that by (rule sub_dict_update)
  have same2: "sub_dict d1 n = d2" if "hashable n" "py_eq n0 n" for n
    unfolding d2_def using kd1 hn that by (intro sub_dict_cong [symmetric])
  have regs: "regs_at (sub_dict (sub_dict d' t) n) r =
            regs_at (sub_dict (sub_dict d t) n) r @
            (if py_eq t0 t \<and> py_eq n0 n
             then filter (\<lambda>e. py_eq (field e ''region'') r) eps else [])"
    if "hashable t" "hashable n" "hashable r" for t n r
    using that by (auto simp: sub1 sub2 same1 same2 at)
  have names: "(dict_lookup (sub_dict d' t) n \<noteq> None) =
            (dict_lookup (sub_dict d t) n \<noteq> None \<or> py_eq t0 t \<and> py_eq n0 n)"
    if "hashable t" "hashable n" for t n
    using that hn kd1 by (auto simp: sub1 same1 d1'_def lookup_update)
  have types: "(dict_lookup d' t \<noteq> None) = (dict_lookup d t \<noteq> None \<or> py_eq t0 t)"
    if "hashable t" for t
    using that ht kd by (auto simp: d'_def lookup_update)
  from run td' regs names types show ?thesis
    unfolding t0_def n0_def eps_def by blast
qed

lemma spec_grouped_Cons:
  "spec_grouped (s # services) t n r =
     (if py_eq (field s ''type'') t \<and> py_eq (field s ''name'') n
      then filter (\<lambda>e. py_eq (field e ''region'') r) (endpoints_of s) else [])
     @ spec_grouped services t n r"
  by (simp add: spec_grouped_def)

lemma v2_loop_effect:
  assumes "type_dict d" "list_all v2_service_ok services"
  shows "\<exists>d'. for_each parse_auth_v2_service services (PDict d) = Inr (PDict d') \<and> type_dict d'
     \<and> (\<forall>t n r. hashable t \<longrightarrow> hashable n \<longrightarrow> hashable r \<longrightarrow>
          regs_at (sub_dict (sub_dict d' t) n) r =
            regs_at (sub_dict (sub_dict d t) n) r @ spec_grouped services t n r)
     \<and> (\<forall>t n. hashable t \<longrightarrow> hashable n \<longrightarrow>
          (dict_lookup (sub_dict d' t) n \<noteq> None) =
            (dict_lookup (sub_dict d t) n \<noteq> None
             \<or> (\<exists>s \<in> set services. py_eq (field s ''type'') t \<and> py_eq (field s ''name'') n)))
     \<and> (\<forall>t. hashable t \<longrightarrow>
          (dict_lookup d' t \<noteq> None) =
            (dict_lookup d t \<noteq> None \<or> (\<exists>s \<in> set services. py_eq (field s ''type'') t)))"
  using assms
proof (induction services arbitrary: d)
  case Nil
  then show ?case by (simp add: spec_grouped_def)
next
  case (Cons s services)
  from Cons.prems(2) have ok: "v2_service_ok s" and oks: "list_all v2_service_ok services"
    by auto
  from v2_service_effect [OF Cons.prems(1) ok] obtain d1 where
    step: "parse_auth_v2_service s (PDict d) = Inr (PDict d1)" and td1: "type_dict d1"
    and r1: "\<And>t n r. hashable t \<Longrightarrow> hashable n \<Longrightarrow> hashable r \<Longrightarrow>
          regs_at (sub_dict (sub_dict d1 t) n) r =
            regs_at (sub_dict (sub_dict d t) n) r @
            (if py_eq (field s ''type'') t \<and> py_eq (field s ''name'') n
             then filter (\<lambda>e. py_eq (field e ''region'') r) (endpoints_of s) else [])"
    and n1: "\<And>t n. hashable t \<Longrightarrow> hashable n \<Longrightarrow>
          (dict_lookup (sub_dict d1 t) n \<noteq> None) =
            (dict_lookup (sub_dict d t) n \<noteq> None
             \<or> py_eq (field s ''type'') t \<and> py_eq (field s ''name'') n)"
    and t1: "\<And>t. hashable t \<Longrightarrow>
          (dict_lookup d1 t \<noteq> None) = (dict_lookup d t \<noteq> None \<or> py_eq (field s ''type'') t)"
    by blast
  from Cons.IH [OF td1 oks] obtain d' where
    loop: "for_each parse_auth_v2_service services (PDict d1) = Inr (PDict d')"
    and td': "type_dict d'"
    and r2: "\<And>t n r. hashable t \<Longrightarrow> hashable n \<Longrightarrow> hashable r \<Longrightarrow>
          regs_at (sub_dict (sub_dict d' t) n) r =
            regs_at (sub_dict (sub_dict d1 t) n) r @ spec_grouped services t n r"
    and n2: "\<And>t n. hashable t \<Longrightarrow> hashable n \<Longrightarrow>
          (dict_lookup (sub_dict d' t) n \<noteq> None) =
            (dict_lookup (sub_dict d1 t) n \<noteq> None
             \<or> (\<exists>s \<in> set services. py_eq (field s ''type'') t \<and> py_eq (field s ''name'') n))"
    and t2: "\<And>t. hashable t \<Longrightarrow>
          (dict_lookup d' t \<noteq> None) =
            (dict_lookup d1 t \<noteq> None \<or> (\<exists>s \<in> set services. py_eq (field s ''type'') t))"
    by blast
  have run: "for_each parse_auth_v2_service (s # services) (PDict d) = Inr (PDict d')"
    using step loop by simp
  have regs: "regs_at (sub_dict (sub_dict d' t) n) r =
            regs_at (sub_dict (sub_dict d t) n) r @ spec_grouped (s # services) t n r"
    if "hashable t" "hashable n" "hashable r" for t n r
    using r1 [OF that] r2 [OF that] by (simp add: spec_grouped_Cons)
  have names: "(dict_lookup (sub_dict d' t) n \<noteq> None) =
            (dict_lookup (sub_dict d t) n \<noteq> None
             \<or> (\<exists>x \<in> set (s # services). py_eq (field x ''type'') t \<and> py_eq (field x ''name'') n))"
    if "hashable t" "hashable n" for t n
    using n1 [OF that] n2 [OF that] by auto
  have types: "(dict_lookup d' t \<noteq> None) =
            (dict_lookup d t \<noteq> None \<or> (\<exists>x \<in> set (s # services). py_eq (field x ''type'') t))"
    if "hashable t" for t
    using t1 [OF that] t2 [OF that] by auto
  from run td' regs names types show ?case by blast
qed

subsection \<open>Exchanges with the auth endpoint\<close>

lemma authenticate_wire:
  assumes "authenticate env osa wire = (Inr u, osa', wire')"
  shows "\<exists>rq. wire' = wire @ [rq]"
proof -
  have v1_0: "authenticate_1_0 env osa wire = (Inr u, osa', wire') \<Longrightarrow> \<exists>rq. wire' = wire @ [rq]"
    by (auto simp: authenticate_1_0_def osa_request_def Let_def split: sum.splits if_splits)
  have v1_1: "authenticate_1_1 env osa wire = (Inr u, osa', wire') \<Longrightarrow> \<exists>rq. wire' = wire @ [rq]"
    by (auto simp: authenticate_1_1_def osa_request_def Let_def
        split: sum.splits if_splits option.splits)
  have v2_0: "authenticate_2_0_with_body env osa wire b = (Inr u, osa', wire') \<Longrightarrow>
                \<exists>rq. wire' = wire @ [rq]" for b
    by (auto simp: authenticate_2_0_with_body_def osa_request_def Let_def
        split: sum.splits if_splits option.splits prod.splits)
  from assms v1_0 v1_1 v2_0 show ?thesis
    by (auto simp: authenticate_def authenticate_2_0_with_apikey_def
        authenticate_2_0_with_password_def split: if_splits)
qed

lemma populate_wire:
  assumes "\<not> truthy (conn_auth_token self)"
      and "populate_hosts_and_request_paths env self wire = (Inr u, self', wire')"
  shows "\<exists>rq. wire' = wire @ [rq]"
proof -
  from assms obtain osa osa' w where
    a: "authenticate (auth_side env) osa wire = (Inr (), osa', w)" and w: "wire' = w"
    by (auto simp: populate_hosts_and_request_paths_def Let_def
        split: option.splits sum.splits prod.splits if_splits)
  from authenticate_wire [OF a] w show ?thesis by simp
qed

lemma osa_request_answer:
  assumes "\<And>rq. auth_endpoint env wire rq = Inr resp"
  shows "osa_request env wire rq =
           (case parse_body (json_loads env) resp of Inl e \<Rightarrow> Inl e | Inr parsed \<Rightarrow> Inr resp,
            wire @ [rq])"
  using assms [of rq]
  by (simp add: osa_request_def OpenStackAuthResponse_init_def and_then_def split: sum.splits)

lemmas request_eval =
  osa_request_def OpenStackAuthResponse_init_def parse_body_def and_then_def

section \<open>Verified properties\<close>

subsection \<open>Lookup in the index\<close>

lemmas catalog_eval =
  OpenStackServiceCatalog_init_def Let_def AUTH_API_VERSION_def
  parse_auth_v1_def parse_auth_v1_service_def parse_auth_v1_endpoint_def
  parse_auth_v2_def parse_auth_v2_service_def parse_auth_v2_endpoint_def
  py_ensure_at_def py_append_at_def and_then_def
  resolve_endpoints_def get_endpoint_def seq_position_def

text \<open>
  C2. Whatever list of endpoint records the chain of \<^verbatim>\<open>.get\<close> calls resolves for
  (service type, name, region), \<^verbatim>\<open>get_endpoint\<close> returns its element when it has
  exactly one and the empty dictionary when it has none or several. For the 2.0 catalog
  with a DFW and an ORD endpoint under one (type, name), the lookup with region
  \<^verbatim>\<open>"DFW"\<close> returns the DFW record and the lookup with region \<^verbatim>\<open>None\<close> returns
  the empty dictionary.
\<close>

theorem get_endpoint_one_or_empty:
  "(resolve_endpoints self service_type name region = Inr (PList es) \<longrightarrow>
      get_endpoint self service_type name region =
        Inr (if length es = 1 then hd es else PDict []))
   \<and> (\<exists>sc. OpenStackServiceCatalog_init two_region_payload (Some ''2.0'') = Inr sc
          \<and> get_endpoint sc (PStr ''compute'') (PStr ''cloudServers'') (PStr ''DFW'') = Inr dfw_endpoint
          \<and> get_endpoint sc (PStr ''compute'') (PStr ''cloudServers'') PNone = Inr (PDict []))"
proof
  show "resolve_endpoints self service_type name region = Inr (PList es) \<longrightarrow>
      get_endpoint self service_type name region =
        Inr (if length es = 1 then hd es else PDict [])"
    by (cases es) (auto simp: get_endpoint_def and_then_def seq_position_def)
next
  show "\<exists>sc. OpenStackServiceCatalog_init two_region_payload (Some ''2.0'') = Inr sc
          \<and> get_endpoint sc (PStr ''compute'') (PStr ''cloudServers'') (PStr ''DFW'') = Inr dfw_endpoint
          \<and> get_endpoint sc (PStr ''compute'') (PStr ''cloudServers'') PNone = Inr (PDict [])"
    by (simp add: two_region_payload_def dfw_endpoint_def ord_endpoint_def catalog_eval)
qed

theorem get_endpoint_one_or_empty_witness:
  "resolve_endpoints
     \<lparr>cat_auth_version = ''1.1'',
      cat_service_catalog =
        PDict [(PStr ''cloudFiles'', PDict [(PNone, PList [dfw_endpoint, ord_endpoint])])]\<rparr>
     PNone (PStr ''cloudFiles'') PNone = Inr (PList [dfw_endpoint, ord_endpoint])
   \<and> get_endpoint
     \<lparr>cat_auth_version = ''1.1'',
      cat_service_catalog =
        PDict [(PStr ''cloudFiles'', PDict [(PNone, PList [dfw_endpoint, ord_endpoint])])]\<rparr>
     PNone (PStr ''cloudFiles'') PNone = Inr (PDict [])"
  using get_endpoint_one_or_empty
    [of "\<lparr>cat_auth_version = ''1.1'',
      cat_service_catalog =
        PDict [(PStr ''cloudFiles'', PDict [(PNone, PList [dfw_endpoint, ord_endpoint])])]\<rparr>"
       PNone "PStr ''cloudFiles''" PNone "[dfw_endpoint, ord_endpoint]"]
  by (simp add: resolve_endpoints_def and_then_def)

subsection \<open>Authentication\<close>

text \<open>
  C3. For each of the version strings \<^verbatim>\<open>1.0\<close>, \<^verbatim>\<open>1.1\<close>, \<^verbatim>\<open>2.0\<close>,
  \<^verbatim>\<open>2.0_apikey\<close> and \<^verbatim>\<open>2.0_password\<close> and any credentials: when the auth endpoint
  answers with status 401 and \<^verbatim>\<open>parse_body\<close> accepts the answer, \<^verbatim>\<open>authenticate\<close>
  raises \<^verbatim>\<open>InvalidCredsError\<close>; when \<^verbatim>\<open>parse_body\<close> rejects the answer, its error
  is raised instead, before the status is looked at.
\<close>

theorem unauthorized_raises_invalid_creds:
  assumes version: "osa_auth_version self \<in> {''1.0'', ''1.1'', ''2.0'', ''2.0_apikey'', ''2.0_password''}"
      and answer: "\<And>rq. auth_endpoint env wire rq = Inr resp"
      and status: "resp_status resp = UNAUTHORIZED"
  shows "fst (authenticate env self wire) =
           (case parse_body (json_loads env) resp of
              Inl e \<Rightarrow> Inl e
            | Inr parsed \<Rightarrow> Inl InvalidCredsError)"
proof -
  have sent: "osa_request env wire rq =
      (case parse_body (json_loads env) resp of Inl e \<Rightarrow> Inl e | Inr parsed \<Rightarrow> Inr resp,
       wire @ [rq])" for rq
    by (rule osa_request_answer [OF answer])
  have v1_0: "fst (authenticate_1_0 env self wire) =
      (case parse_body (json_loads env) resp of Inl e \<Rightarrow> Inl e | Inr parsed \<Rightarrow> Inl InvalidCredsError)"
    by (simp add: authenticate_1_0_def sent status split: sum.splits)
  have v1_1: "fst (authenticate_1_1 env self wire) =
      (case parse_body (json_loads env) resp of Inl e \<Rightarrow> Inl e | Inr parsed \<Rightarrow> Inl InvalidCredsError)"
    by (simp add: authenticate_1_1_def sent status split: sum.splits)
  have v2_0: "fst (authenticate_2_0_with_body env self wire reqbody) =
      (case parse_body (json_loads env) resp of Inl e \<Rightarrow> Inl e | Inr parsed \<Rightarrow> Inl InvalidCredsError)"
    for reqbody
    by (simp add: authenticate_2_0_with_body_def sent status split: sum.splits)
  from version v1_0 v1_1 v2_0 show ?thesis
    by (auto simp: authenticate_def authenticate_2_0_with_apikey_def
        authenticate_2_0_with_password_def)
qed

theorem unauthorized_raises_invalid_creds_witness:
  "fst (authenticate bare_401_env
          (OpenStackAuthConnection_init ''https://auth.example'' ''2.0_password'' ''alice'' ''secret'')
          []) = Inl InvalidCredsError"
  using unauthorized_raises_invalid_creds
    [of "OpenStackAuthConnection_init ''https://auth.example'' ''2.0_password'' ''alice'' ''secret''"
        bare_401_env "[]" bare_401_response]
  by (simp add: OpenStackAuthConnection_init_def bare_401_env_def bare_401_endpoint_def
      bare_401_response_def UNAUTHORIZED_def parse_body_def)

text \<open>Two answers with status 401 that do not end in \<^verbatim>\<open>InvalidCredsError\<close>: an HTML
  body without a content-type header, and the same body labelled as JSON.\<close>

theorem unauthorized_counterexample:
  "resp_status unauthorized_response = UNAUTHORIZED
   \<and> fst (authenticate unauthorized_env
            (OpenStackAuthConnection_init ''https://auth.example'' ''1.1'' ''alice'' ''secret'') [])
       = Inl (LibcloudError ''Missing content-type header'')
   \<and> resp_status mislabelled_response = UNAUTHORIZED
   \<and> fst (authenticate mislabelled_env
            (OpenStackAuthConnection_init ''https://auth.example'' ''2.0'' ''alice'' ''secret'') [])
       = Inl (MalformedResponseError ''Failed to parse JSON'')"
  by (simp add: authenticate_def authenticate_1_1_def authenticate_2_0_with_apikey_def
      authenticate_2_0_with_body_def request_eval OpenStackAuthConnection_init_def
      unauthorized_env_def unauthorized_endpoint_def unauthorized_response_def
      mislabelled_env_def mislabelled_endpoint_def mislabelled_response_def
      loads_nothing_def UNAUTHORIZED_def)

text \<open>
  C4. With version \<^verbatim>\<open>1.1\<close> and with version \<^verbatim>\<open>2.0\<close>, a 200 response whose
  token id is the empty string makes \<^verbatim>\<open>authenticate\<close> return normally with the empty
  string stored as \<^verbatim>\<open>auth_token\<close>.
\<close>

theorem empty_token_accepted:
  "authenticate empty_token_env
     (OpenStackAuthConnection_init ''https://auth.example'' ''1.1'' ''alice'' ''secret'') []
   = (Inr (),
      \<lparr>osa_auth_url = ''https://auth.example'', osa_auth_version = ''1.1'', osa_user_id = ''alice'',
       osa_key = ''secret'', osa_urls = PDict [], osa_auth_token = Some (PStr [])\<rparr>,
      [\<lparr>req_method = ''POST'', req_path = ''/v1.1/auth'', req_headers = [],
        req_data = Some ''{}''\<rparr>])
   \<and> authenticate empty_token_env
     (OpenStackAuthConnection_init ''https://auth.example'' ''2.0'' ''alice'' ''secret'') []
   = (Inr (),
      \<lparr>osa_auth_url = ''https://auth.example'', osa_auth_version = ''2.0'', osa_user_id = ''alice'',
       osa_key = ''secret'', osa_urls = PList [], osa_auth_token = Some (PStr [])\<rparr>,
      [\<lparr>req_method = ''POST'', req_path = ''/v2.0/tokens/'',
        req_headers = [(''Content-Type'', ''application/json'')], req_data = Some ''{}''\<rparr>])"
  by (simp add: authenticate_def authenticate_1_1_def authenticate_2_0_with_apikey_def
      authenticate_2_0_with_body_def request_eval OpenStackAuthConnection_init_def
      empty_token_env_def empty_token_endpoint_def empty_token_loads_def dumps_blank_def
      empty_token_text_1_1_def empty_token_text_2_0_def
      UNAUTHORIZED_def OK_def NON_AUTHORITATIVE_INFORMATION_def and_then_def)

text \<open>
  C7. A 1.1 authentication whose response has status 200, a content-type header under
  either spelling and the body of the scenario, which the JSON library parses to the value
  the text denotes, succeeds with the token \<^verbatim>\<open>tok123\<close>; in the index built from the
  catalog the lookup with name \<^verbatim>\<open>cloudServers\<close> and region \<^verbatim>\<open>None\<close> returns the
  record of the scenario (the service type plays no part in a 1.x index).
\<close>

theorem v1_1_scenario:
  assumes version: "osa_auth_version self = ''1.1''"
      and answer: "\<And>rq. auth_endpoint env wire rq = Inr resp"
      and status: "resp_status resp = OK"
      and header: "map_of (resp_headers resp) ''content-type'' \<noteq> None
                   \<or> map_of (resp_headers resp) ''Content-Type'' \<noteq> None"
      and body: "resp_body resp = scenario_text"
      and parsed: "json_loads env scenario_text = Some scenario_value"
  shows "\<exists>self' wire' sc.
           authenticate env self wire = (Inr (), self', wire')
         \<and> osa_auth_token self' = Some (PStr ''tok123'')
         \<and> OpenStackServiceCatalog_init (osa_urls self') (Some ''1.1'') = Inr sc
         \<and> get_endpoint sc service_type (PStr ''cloudServers'') PNone = Inr scenario_record"
proof -
  have "\<exists>obj. parse_body (json_loads env) resp = Inr obj"
    using header body parsed by (auto simp: parse_body_def Let_def scenario_text_def)
  then have sent: "osa_request env wire rq = (Inr resp, wire @ [rq])" for rq
    using osa_request_answer [OF answer, of rq] by auto
  have auth: "authenticate env self wire =
      (Inr (),
       self\<lparr>osa_auth_token := Some (PStr ''tok123''),
            osa_urls := PDict [(PStr ''cloudServers'', PList [scenario_record])]\<rparr>,
       wire @ [\<lparr>req_method = ''POST'', req_path = ''/v1.1/auth'', req_headers = [],
                req_data = Some (json_dumps env
                  (PDict [(PStr ''credentials'',
                     PDict [(PStr ''username'', PStr (osa_user_id self)),
                            (PStr ''key'', PStr (osa_key self))])]))\<rparr>])"
    using version status body parsed
    by (simp add: authenticate_def authenticate_1_1_def sent scenario_value_def
        OK_def UNAUTHORIZED_def and_then_def)
  have lookup: "\<exists>sc. OpenStackServiceCatalog_init
                  (PDict [(PStr ''cloudServers'', PList [scenario_record])]) (Some ''1.1'') = Inr sc
              \<and> get_endpoint sc service_type (PStr ''cloudServers'') PNone = Inr scenario_record"
    by (simp add: scenario_record_def catalog_eval)
  from auth lookup show ?thesis by auto
qed

theorem v1_1_scenario_witness:
  "\<exists>self' wire' sc.
     authenticate scenario_env
       (OpenStackAuthConnection_init ''https://auth.example'' ''1.1'' ''alice'' ''secret'') []
       = (Inr (), self', wire')
   \<and> osa_auth_token self' = Some (PStr ''tok123'')
   \<and> OpenStackServiceCatalog_init (osa_urls self') (Some ''1.1'') = Inr sc
   \<and> get_endpoint sc PNone (PStr ''cloudServers'') PNone = Inr scenario_record"
  using v1_1_scenario
    [of "OpenStackAuthConnection_init ''https://auth.example'' ''1.1'' ''alice'' ''secret''"
        scenario_env "[]"
        "\<lparr>resp_status = 200, resp_headers = [(''content-type'', ''application/json'')],
          resp_body = scenario_text\<rparr>" PNone]
  by (simp add: OpenStackAuthConnection_init_def scenario_env_def scenario_endpoint_def
      scenario_loads_def OK_def)

text \<open>The response of the scenario with status 200 and no header at all is rejected
  before \<^verbatim>\<open>authenticate_1_1\<close> sees it.\<close>

theorem v1_1_scenario_counterexample:
  "headerless_endpoint [] request_1_1 =
     Inr \<lparr>resp_status = OK, resp_headers = [], resp_body = scenario_text\<rparr>
   \<and> json_loads headerless_env scenario_text = Some scenario_value
   \<and> authenticate headerless_env
       (OpenStackAuthConnection_init ''https://auth.example'' ''1.1'' ''alice'' ''secret'') []
     = (Inl (LibcloudError ''Missing content-type header''),
        OpenStackAuthConnection_init ''https://auth.example'' ''1.1'' ''alice'' ''secret'',
        [request_1_1])"
  by (simp add: authenticate_def authenticate_1_1_def request_eval OpenStackAuthConnection_init_def
      headerless_env_def headerless_endpoint_def scenario_loads_def scenario_text_def
      dumps_blank_def request_1_1_def OK_def)

text \<open>
  C8. Every version string other than \<^verbatim>\<open>1.0\<close>, \<^verbatim>\<open>1.1\<close>, \<^verbatim>\<open>2.0\<close>,
  \<^verbatim>\<open>2.0_apikey\<close> and \<^verbatim>\<open>2.0_password\<close> makes \<^verbatim>\<open>authenticate\<close> raise
  \<^verbatim>\<open>LibcloudError\<close> with nothing sent and nothing stored. The catalog constructor
  raises \<^verbatim>\<open>LibcloudError\<close> for every non-empty version string that contains none of
  \<^verbatim>\<open>2.0\<close>, \<^verbatim>\<open>1.1\<close> and \<^verbatim>\<open>1.0\<close>, whatever the payload.
\<close>

theorem unsupported_version_rejected:
  "(v \<notin> {''1.0'', ''1.1'', ''2.0'', ''2.0_apikey'', ''2.0_password''} \<longrightarrow>
      authenticate env (self\<lparr>osa_auth_version := v\<rparr>) wire =
        (Inl (LibcloudError ''Unsupported Auth Version requested''),
         self\<lparr>osa_auth_version := v\<rparr>, wire))
   \<and> (v \<noteq> [] \<and> \<not> str_in ''2.0'' v \<and> \<not> str_in ''1.1'' v \<and> \<not> str_in ''1.0'' v \<longrightarrow>
      OpenStackServiceCatalog_init payload (Some v) =
        Inl (LibcloudError (''auth version \"'' @ v @ ''\" not supported'')))"
  by (auto simp: authenticate_def OpenStackServiceCatalog_init_def Let_def)

theorem unsupported_version_rejected_witness:
  "authenticate unauthorized_env
     (OpenStackAuthConnection_init ''https://auth.example'' ''3.0'' ''alice'' ''secret'') [] =
     (Inl (LibcloudError ''Unsupported Auth Version requested''),
      OpenStackAuthConnection_init ''https://auth.example'' ''3.0'' ''alice'' ''secret'', [])
   \<and> OpenStackServiceCatalog_init two_region_payload (Some ''3.0'') =
       Inl (LibcloudError ''auth version \"3.0\" not supported'')"
  using unsupported_version_rejected
    [of "''3.0''" unauthorized_env
        "OpenStackAuthConnection_init ''https://auth.example'' ''1.1'' ''alice'' ''secret''" "[]"
        two_region_payload]
  by (simp add: OpenStackAuthConnection_init_def)

theorem unsupported_version_counterexample:
  "''2.0_custom'' \<notin> {''1.0'', ''1.1'', ''2.0'', ''2.0_apikey'', ''2.0_password''}
   \<and> OpenStackServiceCatalog_init two_region_payload (Some ''2.0_custom'') =
       Inr \<lparr>cat_auth_version = ''2.0_custom'',
            cat_service_catalog =
              PDict [(PStr ''compute'',
                PDict [(PStr ''cloudServers'',
                  PDict [(PStr ''DFW'', PList [dfw_endpoint]),
                         (PStr ''ORD'', PList [ord_endpoint])])])]\<rparr>"
  by (simp add: two_region_payload_def dfw_endpoint_def ord_endpoint_def catalog_eval)

text \<open>
  C9. A response with a non-empty body and no content-type header under either spelling
  makes \<^verbatim>\<open>parse_body\<close> raise \<^verbatim>\<open>LibcloudError('Missing content-type header')\<close>,
  without calling the JSON parser; with an empty body it returns \<^verbatim>\<open>None\<close>.
\<close>

theorem missing_content_type:
  assumes "map_of (resp_headers self) ''content-type'' = None"
      and "map_of (resp_headers self) ''Content-Type'' = None"
  shows "parse_body loads self =
           (if resp_body self = [] then Inr PNone
            else Inl (LibcloudError ''Missing content-type header''))"
  using assms by (simp add: parse_body_def)

theorem missing_content_type_witness:
  "parse_body loads_nothing unauthorized_response =
     Inl (LibcloudError ''Missing content-type header'')"
  using missing_content_type [of unauthorized_response loads_nothing]
  by (simp add: unauthorized_response_def)

theorem missing_content_type_counterexample:
  "map_of (resp_headers legacy_response) ''content-type'' = None
   \<and> map_of (resp_headers legacy_response) ''Content-Type'' = None
   \<and> parse_body loads_nothing legacy_response = Inr PNone"
  by (simp add: legacy_response_def parse_body_def)

text \<open>
  C10. Whenever a 1.0 authentication returns normally, the response had status 204 and a
  non-empty \<^verbatim>\<open>x-auth-token\<close> header, and the catalog it stores has exactly the keys
  \<^verbatim>\<open>cloudServers\<close>, \<^verbatim>\<open>cloudFilesCDN\<close> and \<^verbatim>\<open>cloudFiles\<close>, each with a
  one-element list holding a record whose only key is \<^verbatim>\<open>publicURL\<close>, set to the value
  of the matching header or to \<^verbatim>\<open>None\<close>. In the index built from it each record is
  under the region \<^verbatim>\<open>None\<close>, and the lookup with that name and region \<^verbatim>\<open>None\<close>
  returns that record. A 204 response that \<^verbatim>\<open>parse_body\<close> accepts, as it does
  every response without a body, succeeds whichever of the three URL headers are present,
  and raises \<^verbatim>\<open>MalformedResponseError\<close> exactly when the token header is missing or
  empty.
\<close>

theorem v1_0_catalog:
  assumes version: "osa_auth_version self = ''1.0''"
      and answer: "\<And>rq. auth_endpoint env wire rq = Inr resp"
  shows "(authenticate env self wire = (Inr (), self_after, wire_after) \<longrightarrow>
             resp_status resp = NO_CONTENT
           \<and> truthy (headers_get (resp_headers resp) ''x-auth-token'')
           \<and> osa_auth_token self_after = Some (headers_get (resp_headers resp) ''x-auth-token'')
           \<and> osa_urls self_after =
                 PDict [(PStr ''cloudServers'',
                          PList [PDict [(PStr ''publicURL'',
                            headers_get (resp_headers resp) ''x-server-management-url'')]]),
                        (PStr ''cloudFilesCDN'',
                          PList [PDict [(PStr ''publicURL'',
                            headers_get (resp_headers resp) ''x-cdn-management-url'')]]),
                        (PStr ''cloudFiles'',
                          PList [PDict [(PStr ''publicURL'',
                            headers_get (resp_headers resp) ''x-storage-url'')]])]
           \<and> (\<exists>sc. OpenStackServiceCatalog_init (osa_urls self_after) (Some ''1.0'') = Inr sc
                \<and> cat_service_catalog sc =
                    PDict [(PStr ''cloudServers'',
                             PDict [(PNone, PList [PDict [(PStr ''publicURL'',
                               headers_get (resp_headers resp) ''x-server-management-url'')]])]),
                           (PStr ''cloudFilesCDN'',
                             PDict [(PNone, PList [PDict [(PStr ''publicURL'',
                               headers_get (resp_headers resp) ''x-cdn-management-url'')]])]),
                           (PStr ''cloudFiles'',
                             PDict [(PNone, PList [PDict [(PStr ''publicURL'',
                               headers_get (resp_headers resp) ''x-storage-url'')]])])]
                \<and> get_endpoint sc service_type (PStr ''cloudServers'') PNone =
                    Inr (PDict [(PStr ''publicURL'',
                           headers_get (resp_headers resp) ''x-server-management-url'')])
                \<and> get_endpoint sc service_type (PStr ''cloudFilesCDN'') PNone =
                    Inr (PDict [(PStr ''publicURL'',
                           headers_get (resp_headers resp) ''x-cdn-management-url'')])
                \<and> get_endpoint sc service_type (PStr ''cloudFiles'') PNone =
                    Inr (PDict [(PStr ''publicURL'',
                           headers_get (resp_headers resp) ''x-storage-url'')])))
       \<and> (resp_status resp = NO_CONTENT \<and> parse_body (json_loads env) resp = Inr parsed \<longrightarrow>
            (truthy (headers_get (resp_headers resp) ''x-auth-token'') \<longrightarrow>
               (\<exists>s w. authenticate env self wire = (Inr (), s, w)))
          \<and> (\<not> truthy (headers_get (resp_headers resp) ''x-auth-token'') \<longrightarrow>
               fst (authenticate env self wire) =
                 Inl (MalformedResponseError ''Missing X-Auth-Token in response headers'')))"
proof -
  let ?rq = "\<lparr>req_method = ''GET'', req_path = ''/v1.0'',
              req_headers = [(''X-Auth-User'', osa_user_id self), (''X-Auth-Key'', osa_key self)],
              req_data = None\<rparr>"
  let ?urls = "PDict [(PStr ''cloudServers'',
                          PList [PDict [(PStr ''publicURL'',
                            headers_get (resp_headers resp) ''x-server-management-url'')]]),
                        (PStr ''cloudFilesCDN'',
                          PList [PDict [(PStr ''publicURL'',
                            headers_get (resp_headers resp) ''x-cdn-management-url'')]]),
                        (PStr ''cloudFiles'',
                          PList [PDict [(PStr ''publicURL'',
                            headers_get (resp_headers resp) ''x-storage-url'')]])]"
  let ?after = "self\<lparr>osa_urls := ?urls,
                      osa_auth_token := Some (headers_get (resp_headers resp) ''x-auth-token'')\<rparr>"
  have sent: "osa_request env wire ?rq =
      (case parse_body (json_loads env) resp of Inl e \<Rightarrow> Inl e | Inr parsed \<Rightarrow> Inr resp,
       wire @ [?rq])"
    by (rule osa_request_answer [OF answer])
  have auth: "authenticate env self wire =
      (case parse_body (json_loads env) resp of
         Inl e \<Rightarrow> (Inl e, self, wire @ [?rq])
       | Inr parsed \<Rightarrow>
           if resp_status resp = UNAUTHORIZED then (Inl InvalidCredsError, self, wire @ [?rq])
           else if resp_status resp \<noteq> NO_CONTENT then
             (Inl (MalformedResponseError ''Malformed response''), self, wire @ [?rq])
           else
             (if \<not> truthy (headers_get (resp_headers resp) ''x-auth-token'')
              then Inl (MalformedResponseError ''Missing X-Auth-Token in response headers'')
              else Inr (), ?after, wire @ [?rq]))"
    using version by (simp add: authenticate_def authenticate_1_0_def sent Let_def split: sum.splits)
  have lookup: "\<exists>sc. OpenStackServiceCatalog_init ?urls (Some ''1.0'') = Inr sc
             \<and> cat_service_catalog sc =
                 PDict [(PStr ''cloudServers'',
                          PDict [(PNone, PList [PDict [(PStr ''publicURL'',
                            headers_get (resp_headers resp) ''x-server-management-url'')]])]),
                        (PStr ''cloudFilesCDN'',
                          PDict [(PNone, PList [PDict [(PStr ''publicURL'',
                            headers_get (resp_headers resp) ''x-cdn-management-url'')]])]),
                        (PStr ''cloudFiles'',
                          PDict [(PNone, PList [PDict [(PStr ''publicURL'',
                            headers_get (resp_headers resp) ''x-storage-url'')]])])]
             \<and> get_endpoint sc service_type (PStr ''cloudServers'') PNone =
                 Inr (PDict [(PStr ''publicURL'',
                        headers_get (resp_headers resp) ''x-server-management-url'')])
             \<and> get_endpoint sc service_type (PStr ''cloudFilesCDN'') PNone =
                 Inr (PDict [(PStr ''publicURL'',
                        headers_get (resp_headers resp) ''x-cdn-management-url'')])
             \<and> get_endpoint sc service_type (PStr ''cloudFiles'') PNone =
                 Inr (PDict [(PStr ''publicURL'',
                        headers_get (resp_headers resp) ''x-storage-url'')])"
    by (simp add: catalog_eval)
  have after: "resp_status resp = NO_CONTENT
      \<and> truthy (headers_get (resp_headers resp) ''x-auth-token'')
      \<and> self_after = ?after"
    if "authenticate env self wire = (Inr (), self_after, wire_after)"
    using that unfolding auth by (auto split: sum.splits if_splits)
  have accepted: "(truthy (headers_get (resp_headers resp) ''x-auth-token'') \<longrightarrow>
               (\<exists>s w. authenticate env self wire = (Inr (), s, w)))
          \<and> (\<not> truthy (headers_get (resp_headers resp) ''x-auth-token'') \<longrightarrow>
               fst (authenticate env self wire) =
                 Inl (MalformedResponseError ''Missing X-Auth-Token in response headers''))"
    if "resp_status resp = NO_CONTENT" "parse_body (json_loads env) resp = Inr parsed"
    unfolding auth using that by (simp add: NO_CONTENT_def UNAUTHORIZED_def)
  show ?thesis
  proof (intro conjI impI)
    assume ok: "authenticate env self wire = (Inr (), self_after, wire_after)"
    from after [OF ok] show "resp_status resp = NO_CONTENT"
      and "truthy (headers_get (resp_headers resp) ''x-auth-token'')" by simp_all
    from after [OF ok]
    show "osa_auth_token self_after = Some (headers_get (resp_headers resp) ''x-auth-token'')"
      and "osa_urls self_after = ?urls" by simp_all
    from after [OF ok] lookup
    show "\<exists>sc. OpenStackServiceCatalog_init (osa_urls self_after) (Some ''1.0'') = Inr sc
                \<and> cat_service_catalog sc =
                    PDict [(PStr ''cloudServers'',
                             PDict [(PNone, PList [PDict [(PStr ''publicURL'',
                               headers_get (resp_headers resp) ''x-server-management-url'')]])]),
                           (PStr ''cloudFilesCDN'',
                             PDict [(PNone, PList [PDict [(PStr ''publicURL'',
                               headers_get (resp_headers resp) ''x-cdn-management-url'')]])]),
                           (PStr ''cloudFiles'',
                             PDict [(PNone, PList [PDict [(PStr ''publicURL'',
                               headers_get (resp_headers resp) ''x-storage-url'')]])])]
                \<and> get_endpoint sc service_type (PStr ''cloudServers'') PNone =
                    Inr (PDict [(PStr ''publicURL'',
                           headers_get (resp_headers resp) ''x-server-management-url'')])
                \<and> get_endpoint sc service_type (PStr ''cloudFilesCDN'') PNone =
                    Inr (PDict [(PStr ''publicURL'',
                           headers_get (resp_headers resp) ''x-cdn-management-url'')])
                \<and> get_endpoint sc service_type (PStr ''cloudFiles'') PNone =
                    Inr (PDict [(PStr ''publicURL'',
                           headers_get (resp_headers resp) ''x-storage-url'')])"
      by simp
  next
    assume a: "resp_status resp = NO_CONTENT \<and> parse_body (json_loads env) resp = Inr parsed"
      and t: "truthy (headers_get (resp_headers resp) ''x-auth-token'')"
    with accepted show "\<exists>s w. authenticate env self wire = (Inr (), s, w)" by blast
  next
    assume a: "resp_status resp = NO_CONTENT \<and> parse_body (json_loads env) resp = Inr parsed"
      and t: "\<not> truthy (headers_get (resp_headers resp) ''x-auth-token'')"
    with accepted show "fst (authenticate env self wire) =
                 Inl (MalformedResponseError ''Missing X-Auth-Token in response headers'')"
      by blast
  qed
qed

theorem v1_0_catalog_witness:
  "authenticate legacy_env
     (OpenStackAuthConnection_init ''https://auth.example'' ''1.0'' ''alice'' ''secret'') []
     = (Inr (), legacy_conn_after, [legacy_request])
   \<and> (\<exists>sc. OpenStackServiceCatalog_init (osa_urls legacy_conn_after) (Some ''1.0'') = Inr sc
        \<and> get_endpoint sc PNone (PStr ''cloudServers'') PNone
            = Inr (PDict [(PStr ''publicURL'', PNone)])
        \<and> get_endpoint sc PNone (PStr ''cloudFiles'') PNone
            = Inr (PDict [(PStr ''publicURL'', PStr ''https://s.example/v1'')]))"
proof -
  have run: "authenticate legacy_env
     (OpenStackAuthConnection_init ''https://auth.example'' ''1.0'' ''alice'' ''secret'') []
     = (Inr (), legacy_conn_after, [legacy_request])"
    by (simp add: authenticate_def authenticate_1_0_def request_eval OpenStackAuthConnection_init_def
        legacy_env_def legacy_endpoint_def legacy_response_def legacy_conn_after_def
        legacy_request_def headers_get_def NO_CONTENT_def UNAUTHORIZED_def)
  from v1_0_catalog
    [of "OpenStackAuthConnection_init ''https://auth.example'' ''1.0'' ''alice'' ''secret''"
        legacy_env "[]" legacy_response legacy_conn_after "[legacy_request]" PNone PNone]
    run
  show ?thesis
    by (simp add: OpenStackAuthConnection_init_def legacy_env_def legacy_endpoint_def
        legacy_response_def legacy_conn_after_def headers_get_def NO_CONTENT_def parse_body_def)
       blast
qed

subsection \<open>The index built by the constructor\<close>

text \<open>
  C1. On a catalog object that \<^verbatim>\<open>OpenStackServiceCatalog.__init__\<close> has built, from
  any payload and any version it accepts, \<^verbatim>\<open>get_endpoint\<close> returns a value for every
  service type, name and region that can be a dictionary key (strings, \<^verbatim>\<open>None\<close>,
  numbers, booleans): the chain of \<^verbatim>\<open>.get\<close> calls resolves a list, and when a key on
  the path is absent from the index the result is the empty dictionary.
\<close>

theorem get_endpoint_total:
  assumes built: "OpenStackServiceCatalog_init payload version = Inr sc"
      and keys: "hashable service_type" "hashable name" "hashable region"
  shows "(\<exists>es. resolve_endpoints sc service_type name region = Inr (PList es))
       \<and> (\<exists>v. get_endpoint sc service_type name region = Inr v)
       \<and> (py_getpath (cat_service_catalog sc)
             (if str_in ''2.0'' (cat_auth_version sc) then [service_type, name, region]
              else [name, region]) = Inl KeyError
           \<longrightarrow> get_endpoint sc service_type name region = Inr (PDict []))"
proof -
  from init_invariant [OF built] obtain d where idx: "cat_service_catalog sc = PDict d"
    and inv: "if str_in ''2.0'' (cat_auth_version sc) then type_dict d
               else (str_in ''1.1'' (cat_auth_version sc) \<or> str_in ''1.0'' (cat_auth_version sc))
                    \<and> name_dict d"
    by blast
  show ?thesis
  proof (cases "str_in ''2.0'' (cat_auth_version sc)")
    case True
    with inv have td: "type_dict d" by simp
    let ?es = "regs_at (sub_dict (sub_dict d service_type) name) region"
    have r: "resolve_endpoints sc service_type name region = Inr (PList ?es)"
      using td True idx keys by (rule resolve_v2)
    from get_endpoint_of_list [OF r] r True idx getpath3 [OF td keys]
    show ?thesis by (auto split: if_splits)
  next
    case False
    with inv have fam: "str_in ''1.1'' (cat_auth_version sc) \<or> str_in ''1.0'' (cat_auth_version sc)"
      and nd: "name_dict d" by simp_all
    let ?es = "regs_at (sub_dict d name) region"
    have r: "resolve_endpoints sc service_type name region = Inr (PList ?es)"
      using nd False fam idx keys(2,3) by (rule resolve_v1)
    from get_endpoint_of_list [OF r] r False idx getpath2_v1 [OF nd keys(2,3)]
    show ?thesis by (auto split: if_splits)
  qed
qed

theorem get_endpoint_total_witness:
  "(\<exists>es. resolve_endpoints two_region_catalog (PStr ''compute'') (PStr ''cloudServers'') (PStr ''LON'')
            = Inr (PList es))
   \<and> get_endpoint two_region_catalog (PStr ''compute'') (PStr ''cloudServers'') (PStr ''LON'')
        = Inr (PDict [])"
  using get_endpoint_total
    [of two_region_payload "Some ''2.0''" two_region_catalog
        "PStr ''compute''" "PStr ''cloudServers''" "PStr ''LON''"]
  by (simp add: two_region_payload_def two_region_catalog_def dfw_endpoint_def ord_endpoint_def
      catalog_eval)

text \<open>
  C6. For a payload in the 2.0 shape and a version of the 2.0 family the constructor
  succeeds, and the index it builds is exactly the three-level map of the specification:
  \<^verbatim>\<open>idx[t][n][r]\<close> is the list \<open>spec_grouped services t n r\<close> when that list is not
  empty and a \<^verbatim>\<open>KeyError\<close> otherwise; \<^verbatim>\<open>idx[t][n]\<close> exists exactly when some
  descriptor has type \<open>t\<close> and name \<open>n\<close>, and \<^verbatim>\<open>idx[t]\<close> exactly when some
  descriptor has type \<open>t\<close>. So every region's list keeps the declared order and holds
  every endpoint of that region, duplicates included.
\<close>

theorem v2_index_groups_endpoints:
  assumes shape: "list_all v2_service_ok services"
      and family: "str_in ''2.0'' version"
  shows "\<exists>idx. OpenStackServiceCatalog_init (PList services) (Some version) =
                 Inr \<lparr>cat_auth_version = version, cat_service_catalog = idx\<rparr>
     \<and> (\<forall>t n r. hashable t \<and> hashable n \<and> hashable r \<longrightarrow>
          py_getpath idx [t, n, r] =
            (if spec_grouped services t n r = [] then Inl KeyError
             else Inr (PList (spec_grouped services t n r)))
        \<and> ((\<exists>v. py_getpath idx [t, n] = Inr v) =
             (\<exists>s \<in> set services. py_eq (field s ''type'') t \<and> py_eq (field s ''name'') n))
        \<and> ((\<exists>v. py_getpath idx [t] = Inr v) =
             (\<exists>s \<in> set services. py_eq (field s ''type'') t)))"
proof -
  from family have ne: "version \<noteq> []" by auto
  from v2_loop_effect [OF type_dict_Nil shape] obtain d where
    loop: "for_each parse_auth_v2_service services (PDict []) = Inr (PDict d)"
    and td: "type_dict d"
    and regs: "\<And>t n r. hashable t \<Longrightarrow> hashable n \<Longrightarrow> hashable r \<Longrightarrow>
          regs_at (sub_dict (sub_dict d t) n) r = spec_grouped services t n r"
    and names: "\<And>t n. hashable t \<Longrightarrow> hashable n \<Longrightarrow>
          (dict_lookup (sub_dict d t) n \<noteq> None) =
            (\<exists>s \<in> set services. py_eq (field s ''type'') t \<and> py_eq (field s ''name'') n)"
    and types: "\<And>t. hashable t \<Longrightarrow>
          (dict_lookup d t \<noteq> None) = (\<exists>s \<in> set services. py_eq (field s ''type'') t)"
    by (auto simp: sub_dict_Nil regs_at_Nil)
  have built: "OpenStackServiceCatalog_init (PList services) (Some version) =
                 Inr \<lparr>cat_auth_version = version, cat_service_catalog = PDict d\<rparr>"
    using family ne loop
    by (simp add: OpenStackServiceCatalog_init_def Let_def parse_auth_v2_def and_then_def)
  have "py_getpath (PDict d) [t, n, r] =
            (if spec_grouped services t n r = [] then Inl KeyError
             else Inr (PList (spec_grouped services t n r)))
        \<and> ((\<exists>v. py_getpath (PDict d) [t, n] = Inr v) =
             (\<exists>s \<in> set services. py_eq (field s ''type'') t \<and> py_eq (field s ''name'') n))
        \<and> ((\<exists>v. py_getpath (PDict d) [t] = Inr v) =
             (\<exists>s \<in> set services. py_eq (field s ''type'') t))"
    if "hashable t" "hashable n" "hashable r" for t n r
    using getpath3 [OF td that] getpath2 [OF td that(1,2)] getpath1 [OF that(1), of d]
      regs [OF that] names [OF that(1,2)] types [OF that(1)]
    by simp
  with built show ?thesis by blast
qed

theorem v2_index_groups_endpoints_witness:
  "\<exists>idx. OpenStackServiceCatalog_init (PList accumulating_services) (Some ''2.0_password'') =
           Inr \<lparr>cat_auth_version = ''2.0_password'', cat_service_catalog = idx\<rparr>
       \<and> py_getpath idx [PStr ''compute'', PStr ''cloudServers'', PStr ''DFW'']
           = Inr (PList [dfw_endpoint, dfw_internal_endpoint])
       \<and> py_getpath idx [PStr ''compute'', PStr ''cloudServers'', PNone] = Inl KeyError"
proof -
  have shape: "list_all v2_service_ok accumulating_services"
    by (simp add: accumulating_services_def v2_service_ok_def v2_endpoint_ok_def field_def
        dfw_endpoint_def ord_endpoint_def dfw_internal_endpoint_def)
  have family: "str_in ''2.0'' ''2.0_password''" by simp
  have dfw: "spec_grouped accumulating_services (PStr ''compute'') (PStr ''cloudServers'') (PStr ''DFW'')
               = [dfw_endpoint, dfw_internal_endpoint]"
    by (simp add: spec_grouped_def accumulating_services_def field_def endpoints_of_def
        dfw_endpoint_def ord_endpoint_def dfw_internal_endpoint_def)
  have none: "spec_grouped accumulating_services (PStr ''compute'') (PStr ''cloudServers'') PNone = []"
    by (simp add: spec_grouped_def accumulating_services_def field_def endpoints_of_def
        dfw_endpoint_def ord_endpoint_def dfw_internal_endpoint_def)
  from v2_index_groups_endpoints [OF shape family] obtain idx where
    built: "OpenStackServiceCatalog_init (PList accumulating_services) (Some ''2.0_password'') =
           Inr \<lparr>cat_auth_version = ''2.0_password'', cat_service_catalog = idx\<rparr>"
    and at: "\<And>t n r. hashable t \<and> hashable n \<and> hashable r \<Longrightarrow>
          py_getpath idx [t, n, r] =
            (if spec_grouped accumulating_services t n r = [] then Inl KeyError
             else Inr (PList (spec_grouped accumulating_services t n r)))"
    by blast
  from at [of "PStr ''compute''" "PStr ''cloudServers''" "PStr ''DFW''"]
       at [of "PStr ''compute''" "PStr ''cloudServers''" PNone] dfw none built
  show ?thesis by auto
qed

subsection \<open>The connection\<close>

text \<open>
  C5. Once \<^verbatim>\<open>auth_token\<close> is non-empty, \<^verbatim>\<open>_populate_hosts_and_request_paths\<close>
  returns without sending anything to the auth endpoint and without changing the
  connection, and so do the first step of \<^verbatim>\<open>request\<close> and of
  \<^verbatim>\<open>morph_action_hook\<close>. When a call on a connection without a token returns normally
  and leaves a non-empty token, it has sent exactly one request to the auth endpoint, and
  the next call sends none and changes nothing.
\<close>

theorem ensure_authenticated_idempotent:
  "(truthy (conn_auth_token self) \<longrightarrow>
       populate_hosts_and_request_paths env self wire = (Inr (), self, wire)
     \<and> snd (request env self wire kwargs) = (self, wire)
     \<and> snd (morph_action_hook env self wire action) = (self, wire))
   \<and> (\<not> truthy (conn_auth_token self)
      \<and> populate_hosts_and_request_paths env self wire = (Inr (), self', wire')
      \<and> truthy (conn_auth_token self') \<longrightarrow>
        (\<exists>rq. wire' = wire @ [rq])
      \<and> populate_hosts_and_request_paths env self' wire' = (Inr (), self', wire'))"
proof (intro conjI impI)
  assume "truthy (conn_auth_token self)"
  then show "populate_hosts_and_request_paths env self wire = (Inr (), self, wire)"
    by (simp add: populate_hosts_and_request_paths_def)
  then show "snd (request env self wire kwargs) = (self, wire)"
    by (simp add: request_def)
  from \<open>populate_hosts_and_request_paths env self wire = (Inr (), self, wire)\<close>
  show "snd (morph_action_hook env self wire action) = (self, wire)"
    by (simp add: morph_action_hook_def)
next
  assume a: "\<not> truthy (conn_auth_token self)
      \<and> populate_hosts_and_request_paths env self wire = (Inr (), self', wire')
      \<and> truthy (conn_auth_token self')"
  then show "\<exists>rq. wire' = wire @ [rq]" by (auto dest: populate_wire)
  from a show "populate_hosts_and_request_paths env self' wire' = (Inr (), self', wire')"
    by (simp add: populate_hosts_and_request_paths_def)
qed

lemmas conn_eval =
  populate_hosts_and_request_paths_def authenticate_def authenticate_1_1_def request_eval
  OpenStackAuthConnection_init_def driver_env_def fresh_conn_def url_as_host_def
  cloud_servers_endpoint_def dumps_blank_def request_1_1_def
  OK_def UNAUTHORIZED_def

lemma first_call:
  "populate_hosts_and_request_paths (driver_env scenario_env) (fresh_conn ''1.1'' None) [] =
     (Inr (), authenticated_conn, [request_1_1])"
  by (simp add: conn_eval scenario_env_def scenario_endpoint_def scenario_loads_def
      scenario_value_def scenario_record_def catalog_eval authenticated_conn_def)

theorem ensure_authenticated_idempotent_witness:
  "populate_hosts_and_request_paths (driver_env scenario_env) (fresh_conn ''1.1'' None) [] =
     (Inr (), authenticated_conn, [request_1_1])
   \<and> populate_hosts_and_request_paths (driver_env scenario_env) authenticated_conn [request_1_1] =
     (Inr (), authenticated_conn, [request_1_1])
   \<and> snd (request (driver_env scenario_env) authenticated_conn [request_1_1] PNone) = (authenticated_conn, [request_1_1])"
  using ensure_authenticated_idempotent
    [of "fresh_conn ''1.1'' None" "driver_env scenario_env" "[]" PNone "''servers''"
        authenticated_conn "[request_1_1]"]
    ensure_authenticated_idempotent
    [of authenticated_conn "driver_env scenario_env" "[request_1_1]" PNone "''servers''"
        authenticated_conn "[request_1_1]"]
    first_call
  by (simp add: authenticated_conn_def fresh_conn_def)

text \<open>Two calls in a row that send two requests: against an endpoint that answers 401
  with an empty body, where both calls raise and the connection stays as it was; and
  against an endpoint that hands out the empty token, where both calls return normally.\<close>

theorem ensure_authenticated_counterexample:
  "populate_hosts_and_request_paths (driver_env bare_401_env) (fresh_conn ''1.1'' None) [] =
     (Inl InvalidCredsError, fresh_conn ''1.1'' None, [request_1_1])
   \<and> populate_hosts_and_request_paths (driver_env bare_401_env) (fresh_conn ''1.1'' None)
       [request_1_1] =
     (Inl InvalidCredsError, fresh_conn ''1.1'' None, [request_1_1, request_1_1])
   \<and> populate_hosts_and_request_paths (driver_env empty_token_env) forced_conn [] =
     (Inr (), forced_conn_after, [request_1_1])
   \<and> populate_hosts_and_request_paths (driver_env empty_token_env) forced_conn_after
       [request_1_1] =
     (Inr (), forced_conn_after, [request_1_1, request_1_1])"
  by (simp add: conn_eval bare_401_env_def bare_401_endpoint_def bare_401_response_def
      empty_token_env_def empty_token_endpoint_def empty_token_loads_def
      empty_token_text_1_1_def empty_token_text_2_0_def
      forced_conn_def forced_conn_after_def catalog_eval)

end
